(* ===== verification/Prelude.thy ===== *)
theory Prelude
  imports Main "HOL-Library.Sublist" "HOL-Library.AList"
begin

text \<open>
  Shared vocabulary of the contact-book development (\<open>src/main.py\<close>).
  Python \<open>str\<close> values are modelled as \<^typ>\<open>string\<close>, one \<^typ>\<open>char\<close> per code
  point; a \<^typ>\<open>char\<close> has 256 values, so the model covers the Latin-1 range
  U+0000..U+00FF of Python strings, and the builtins below (\<open>str.isdigit\<close>,
  \<open>str.lower\<close>, \<open>str.isspace\<close>, \<open>str.split\<close>) are written out for that range.
  Exceptions are the values of \<open>exc\<close>; a fallible operation returns
  \<open>exc + 'a\<close>, with \<open>Inl\<close> the raised exception. A Python \<open>dict\<close> is an
  association list: \<open>AList.update\<close> overwrites a present key in place and appends a
  new key at the end, which is the insertion order a \<open>dict\<close> keeps.
\<close>

named_theorems py_simps "evaluation rules of the modelled Python builtins"

section \<open>Exceptions\<close>

text \<open>The builtin exceptions the program raises or catches, its own \<open>DateError\<close>,
  and the error \<open>pickle.load\<close> raises on a file it cannot read.\<close>

datatype exc = IndexError | KeyError | ValueError | DateError | UnpicklingError

section \<open>Characters and strings\<close>

text \<open>\<open>str.isdigit\<close> on one code point of the Latin-1 range: the decimal digits
  and the superscripts two, three and one (Unicode numeric type Digit).\<close>

definition py_digit_char :: "char \<Rightarrow> bool" where
  "py_digit_char c \<longleftrightarrow>
     (let n = (of_char c :: nat) in (48 \<le> n \<and> n \<le> 57) \<or> n = 178 \<or> n = 179 \<or> n = 185)"

text \<open>\<open>s.isdigit()\<close>: non-empty and every character a digit.\<close>

definition py_isdigit :: "string \<Rightarrow> bool" where
  "py_isdigit s \<longleftrightarrow> s \<noteq> [] \<and> list_all py_digit_char s"

text \<open>The ASCII decimal digits, which the regular expression class \<open>\d\<close> matches in
  the Latin-1 range (the superscripts are not decimal digits).\<close>

definition ascii_digit :: "char \<Rightarrow> bool" where
  "ascii_digit c \<longleftrightarrow> (48::nat) \<le> of_char c \<and> of_char c \<le> (57::nat)"

definition digit_val :: "char \<Rightarrow> nat" where
  "digit_val c = of_char c - 48"

definition digit_char :: "nat \<Rightarrow> char" where
  "digit_char k = char_of (48 + k)"

text \<open>\<open>str.lower\<close> on one code point: A-Z and the Latin-1 capitals
  U+00C0..U+00DE except the multiplication sign U+00D7 move up by 32.\<close>

definition py_lower_char :: "char \<Rightarrow> char" where
  "py_lower_char c =
     (let n = (of_char c :: nat) in
      if (65 \<le> n \<and> n \<le> 90) \<or> (192 \<le> n \<and> n \<le> 222 \<and> n \<noteq> 215) then char_of (n + 32) else c)"

definition py_lower :: "string \<Rightarrow> string" where
  "py_lower s = map py_lower_char s"

text \<open>\<open>str.isspace\<close> on one code point of the Latin-1 range.\<close>

definition py_space_char :: "char \<Rightarrow> bool" where
  "py_space_char c \<longleftrightarrow>
     (let n = (of_char c :: nat) in (9 \<le> n \<and> n \<le> 13) \<or> (28 \<le> n \<and> n \<le> 32) \<or> n = 133 \<or> n = 160)"

text \<open>\<open>s.split()\<close> without a separator: the maximal runs of non-space characters.\<close>

fun py_split_acc :: "string \<Rightarrow> string \<Rightarrow> string list" where
  "py_split_acc cur [] = (if cur = [] then [] else [rev cur])"
| "py_split_acc cur (c # cs) =
     (if py_space_char c then (if cur = [] then py_split_acc [] cs else rev cur # py_split_acc [] cs)
      else py_split_acc (c # cur) cs)"

definition py_split :: "string \<Rightarrow> string list" where
  "py_split s = py_split_acc [] s"

text \<open>The operator \<open>in\<close> on strings is the substring test.\<close>

abbreviation py_in :: "string \<Rightarrow> string \<Rightarrow> bool" where
  "py_in a b \<equiv> sublist a b"

text \<open>A slice \<open>s[i:j]\<close> with non-negative bounds; Python clamps both bounds to the
  length, as \<open>take\<close> and \<open>drop\<close> do.\<close>

definition py_slice :: "'a list \<Rightarrow> nat \<Rightarrow> nat \<Rightarrow> 'a list" where
  "py_slice s i j = take (j - i) (drop i s)"

text \<open>\<open>s.removeprefix(p)\<close>.\<close>

definition py_removeprefix :: "string \<Rightarrow> string \<Rightarrow> string" where
  "py_removeprefix p s = (if prefix p s then drop (length p) s else s)"

text \<open>\<open>sep.join(xs)\<close>.\<close>

fun py_join :: "string \<Rightarrow> string list \<Rightarrow> string" where
  "py_join sep [] = []"
| "py_join sep [x] = x"
| "py_join sep (x # y # ys) = x @ sep @ py_join sep (y # ys)"

text \<open>\<open>str(n)\<close> for an integer: decimal digits, a minus sign for negatives.\<close>

fun py_str_nat :: "nat \<Rightarrow> string" where
  "py_str_nat n = (if n < 10 then [digit_char n] else py_str_nat (n div 10) @ [digit_char (n mod 10)])"

declare py_str_nat.simps [simp del]

definition py_str_int :: "int \<Rightarrow> string" where
  "py_str_int i = (if i < 0 then CHR ''-'' # py_str_nat (nat (- i)) else py_str_nat (nat i))"

section \<open>Lists and dictionaries\<close>

text \<open>\<open>xs.remove(x)\<close>: drop the first element equal to \<open>x\<close>, \<open>ValueError\<close> if
  there is none.\<close>

definition py_remove :: "'a \<Rightarrow> 'a list \<Rightarrow> exc + 'a list" where
  "py_remove x xs = (if x \<in> set xs then Inr (remove1 x xs) else Inl ValueError)"

text \<open>\<open>args[i]\<close> on the argument tuple: \<open>IndexError\<close> out of range.\<close>

definition py_nth :: "'a list \<Rightarrow> nat \<Rightarrow> exc + 'a" where
  "py_nth xs i = (if i < length xs then Inr (xs ! i) else Inl IndexError)"

text \<open>\<open>d[k]\<close> on a dictionary: \<open>KeyError\<close> for a missing key.\<close>

definition py_getitem :: "('k \<times> 'v) list \<Rightarrow> 'k \<Rightarrow> exc + 'v" where
  "py_getitem d k = (case map_of d k of None \<Rightarrow> Inl KeyError | Some v \<Rightarrow> Inr v)"

text \<open>\<open>d[k] = v\<close>: overwrite in place, or append a new key.\<close>

abbreviation py_setitem :: "('k \<times> 'v) list \<Rightarrow> 'k \<Rightarrow> 'v \<Rightarrow> ('k \<times> 'v) list" where
  "py_setitem d k v \<equiv> AList.update k v d"

section \<open>Generic lemmas\<close>

lemma py_remove_Inr [py_simps]:
  "py_remove x xs = Inr ys \<longleftrightarrow> x \<in> set xs \<and> ys = remove1 x xs"
  by (auto simp: py_remove_def)

lemma py_remove_Inl [py_simps]:
  "py_remove x xs = Inl e \<longleftrightarrow> x \<notin> set xs \<and> e = ValueError"
  by (auto simp: py_remove_def)

lemma py_nth_Inr [py_simps]:
  "py_nth xs i = Inr v \<longleftrightarrow> i < length xs \<and> v = xs ! i"
  by (auto simp: py_nth_def)

lemma py_getitem_Inr [py_simps]:
  "py_getitem d k = Inr v \<longleftrightarrow> map_of d k = Some v"
  by (auto simp: py_getitem_def split: option.splits)

lemma py_getitem_Inl [py_simps]:
  "py_getitem d k = Inl e \<longleftrightarrow> map_of d k = None \<and> e = KeyError"
  by (auto simp: py_getitem_def split: option.splits)

lemma sublist_same_length: "length a = length b \<Longrightarrow> py_in a b \<longleftrightarrow> b = a"
proof
  assume "length a = length b" "py_in a b"
  then show "b = a" by (auto simp: sublist_def)
next
  assume "b = a"
  then show "py_in a b" by (simp add: sublist_order.order_refl)
qed

lemma Cons2_of_length: "2 \<le> length s \<Longrightarrow> \<exists>a b t. s = a # b # t"
  by (cases s; cases "tl s") auto

lemma Cons4_of_length: "4 \<le> length s \<Longrightarrow> \<exists>a b c d t. s = a # b # c # d # t"
  by (cases s; cases "tl s"; cases "tl (tl s)"; cases "tl (tl (tl s))") auto

lemma list_all_update:
  "list_all P d \<Longrightarrow> P (k, v) \<Longrightarrow> list_all P (AList.update k v d)"
  by (induction d) auto

lemma update_new_key: "map_of d k = None \<Longrightarrow> AList.update k v d = d @ [(k, v)]"
  by (induction d) auto

lemma list_all_remove1: "list_all P xs \<Longrightarrow> list_all P (remove1 x xs)"
  by (induction xs) auto

lemma set_remove1_subset: "set (remove1 x xs) \<subseteq> set xs"
  by (induction xs) auto

lemma py_isdigit_append [simp]:
  "py_isdigit (a @ b) \<longleftrightarrow> (a \<noteq> [] \<or> b \<noteq> []) \<and> list_all py_digit_char a \<and> list_all py_digit_char b"
  by (auto simp: py_isdigit_def)

lemma py_isdigit_Cons [simp]:
  "py_isdigit (c # s) \<longleftrightarrow> py_digit_char c \<and> list_all py_digit_char s"
  by (simp add: py_isdigit_def)

lemma py_slice_take [simp]: "py_slice s 0 j = take j s"
  by (simp add: py_slice_def)

lemma py_removeprefix_Cons [simp]:
  "py_removeprefix [c] (c # s) = s"
  "c \<noteq> d \<Longrightarrow> py_removeprefix [c] (d # s) = d # s"
  "py_removeprefix [c] [] = []"
  by (simp_all add: py_removeprefix_def)

lemma py_removeprefix_single:
  "py_removeprefix [c] s = (case s of d # t \<Rightarrow> if d = c then t else s | [] \<Rightarrow> [])"
  by (cases s) (simp_all add: py_removeprefix_def)

end
