(* ===== verification/Dates.thy ===== *)
theory Dates
  imports Prelude
begin

text \<open>
  The parts of Python's \<open>datetime\<close> module that \<open>src/main.py\<close> relies on:
  \<open>date(y, m, d)\<close> with its range checks, the proleptic Gregorian ordinal that
  \<open>date - date\<close> subtracts, the order \<open><\<close> on dates, \<open>strftime\<close> with the
  directives \<open>%d %m %b %Y\<close>, and \<open>strptime\<close> with the formats \<open>%Y-%m-%d\<close> and
  \<open>%d.%m.%Y\<close>. These are library code, modelled from CPython's \<open>datetime.py\<close>
  and \<open>_strptime.py\<close>: \<open>strptime\<close> compiles the format into a regular
  expression, takes the first match that \<open>re.match\<close> finds at the start of the
  string, raises \<open>ValueError\<close> when characters remain after it, and then builds
  the date, which raises \<open>ValueError\<close> for an impossible day. A backtracking
  matcher finds the first match in the order of its alternatives, which is the head of
  the list of successes computed by the matchers below.
\<close>

section \<open>Calendar\<close>

record date =
  year :: nat
  month :: nat
  day :: nat

definition MAXYEAR :: nat where
  "MAXYEAR = 9999"

text \<open>\<open>_is_leap\<close>.\<close>

definition is_leap :: "nat \<Rightarrow> bool" where
  "is_leap y \<longleftrightarrow> y mod 4 = 0 \<and> (y mod 100 \<noteq> 0 \<or> y mod 400 = 0)"

text \<open>\<open>_days_in_month\<close>, defined for months 1 to 12.\<close>

definition days_in_month :: "nat \<Rightarrow> nat \<Rightarrow> nat" where
  "days_in_month y m =
     (if m = 2 \<and> is_leap y then 29 else [31, 28, 31, 30, 31, 30, 31, 31, 30, 31, 30, 31] ! (m - 1))"

text \<open>\<open>_days_before_month\<close> and \<open>_days_before_year\<close>.\<close>

definition days_before_month :: "nat \<Rightarrow> nat \<Rightarrow> nat" where
  "days_before_month y m =
     [0, 31, 59, 90, 120, 151, 181, 212, 243, 273, 304, 334] ! (m - 1)
     + (if 2 < m \<and> is_leap y then 1 else 0)"

definition days_before_year :: "nat \<Rightarrow> int" where
  "days_before_year y =
     (let z = int y - 1 in z * 365 + z div 4 - z div 100 + z div 400)"

text \<open>\<open>_check_date_fields\<close>: the constructor \<open>date(y, m, d)\<close> accepts exactly
  these arguments and raises \<open>ValueError\<close> otherwise.\<close>

definition valid_ymd :: "nat \<Rightarrow> nat \<Rightarrow> nat \<Rightarrow> bool" where
  "valid_ymd y m d \<longleftrightarrow>
     1 \<le> y \<and> y \<le> MAXYEAR \<and> 1 \<le> m \<and> m \<le> 12 \<and> 1 \<le> d \<and> d \<le> days_in_month y m"

definition valid_date :: "date \<Rightarrow> bool" where
  "valid_date dt \<longleftrightarrow> valid_ymd (year dt) (month dt) (day dt)"

definition py_date :: "nat \<Rightarrow> nat \<Rightarrow> nat \<Rightarrow> exc + date" where
  "py_date y m d =
     (if valid_ymd y m d then Inr \<lparr>year = y, month = m, day = d\<rparr> else Inl ValueError)"

text \<open>\<open>date.toordinal\<close>; \<open>(a - b).days\<close> is the difference of the ordinals.\<close>

definition toordinal :: "date \<Rightarrow> int" where
  "toordinal dt =
     days_before_year (year dt) + int (days_before_month (year dt) (month dt)) + int (day dt)"

definition date_sub_days :: "date \<Rightarrow> date \<Rightarrow> int" where
  "date_sub_days a b = toordinal a - toordinal b"

text \<open>\<open>a < b\<close> on dates compares the tuples \<open>(year, month, day)\<close>.\<close>

definition date_lt :: "date \<Rightarrow> date \<Rightarrow> bool" where
  "date_lt a b \<longleftrightarrow>
     year a < year b \<or> (year a = year b \<and> (month a < month b \<or> (month a = month b \<and> day a < day b)))"

text \<open>Auxiliary quantities of the calendar arithmetic: the length of a year, and
  \<open>_days_before_year\<close> on a non-negative argument in \<open>nat\<close>.\<close>

definition days_in_year :: "nat \<Rightarrow> nat" where
  "days_in_year y = (if is_leap y then 366 else 365)"

definition dby_nat :: "nat \<Rightarrow> nat" where
  "dby_nat n = n * 365 + n div 4 - n div 100 + n div 400"

section \<open>strftime\<close>

text \<open>\<open>%d\<close> and \<open>%m\<close>: two digits; \<open>%Y\<close>: four digits, zero-padded (CPython pads
  the year to four digits on every platform since 3.13); \<open>%b\<close>: the C-locale
  abbreviation of the month.\<close>

definition pad2 :: "nat \<Rightarrow> string" where
  "pad2 n = [digit_char (n div 10 mod 10), digit_char (n mod 10)]"

definition pad4 :: "nat \<Rightarrow> string" where
  "pad4 n = [digit_char (n div 1000 mod 10), digit_char (n div 100 mod 10),
             digit_char (n div 10 mod 10), digit_char (n mod 10)]"

definition month_abbr :: "nat \<Rightarrow> string" where
  "month_abbr m =
     [''Jan'', ''Feb'', ''Mar'', ''Apr'', ''May'', ''Jun'',
      ''Jul'', ''Aug'', ''Sep'', ''Oct'', ''Nov'', ''Dec''] ! (m - 1)"

text \<open>\<open>strftime('%d %b %Y')\<close> and \<open>strftime('%d.%m.%Y')\<close>.\<close>

definition strftime_dbY :: "date \<Rightarrow> string" where
  "strftime_dbY dt = pad2 (day dt) @ '' '' @ month_abbr (month dt) @ '' '' @ pad4 (year dt)"

definition strftime_dmY :: "date \<Rightarrow> string" where
  "strftime_dmY dt = pad2 (day dt) @ ''.'' @ pad2 (month dt) @ ''.'' @ pad4 (year dt)"

text \<open>The ISO rendering \<open>%Y-%m-%d\<close>, the other format the program reads.\<close>

definition strftime_Ymd :: "date \<Rightarrow> string" where
  "strftime_Ymd dt = pad4 (year dt) @ ''-'' @ pad2 (month dt) @ ''-'' @ pad2 (day dt)"

section \<open>strptime\<close>

text \<open>A matcher returns every way it can match a prefix of its input, each with the
  value it builds and the rest of the input, in the order a backtracking matcher tries
  them.\<close>

type_synonym 'a matcher = "string \<Rightarrow> ('a \<times> string) list"

definition m_lit :: "char \<Rightarrow> unit matcher" where
  "m_lit c s = (case s of x # r \<Rightarrow> if x = c then [((), r)] else [] | [] \<Rightarrow> [])"

definition m_cls :: "(char \<Rightarrow> bool) \<Rightarrow> char matcher" where
  "m_cls P s = (case s of x # r \<Rightarrow> if P x then [(x, r)] else [] | [] \<Rightarrow> [])"

definition m_seq :: "'a matcher \<Rightarrow> 'b matcher \<Rightarrow> ('a \<times> 'b) matcher" where
  "m_seq p q s = concat (map (\<lambda>(a, r). map (\<lambda>(b, r'). ((a, b), r')) (q r)) (p s))"

definition m_alt :: "'a matcher \<Rightarrow> 'a matcher \<Rightarrow> 'a matcher" where
  "m_alt p q s = p s @ q s"

text \<open>A group: the text the matcher consumed. The group of an alternation is the
  group of the alternative that matched.\<close>

definition m_group :: "'a matcher \<Rightarrow> string matcher" where
  "m_group p s = map (\<lambda>(a, r). (take (length s - length r) s, r)) (p s)"

definition in_range :: "char \<Rightarrow> char \<Rightarrow> char \<Rightarrow> bool" where
  "in_range lo hi c \<longleftrightarrow> of_char lo \<le> (of_char c :: nat) \<and> (of_char c :: nat) \<le> of_char hi"

text \<open>The directives of \<open>_strptime.TimeRE\<close>:
  \<open>%d\<close> is \<open>3[01]|[12]\d|0[1-9]|[1-9]| [1-9]\<close>, \<open>%m\<close> is \<open>1[0-2]|0[1-9]|[1-9]\<close>,
  \<open>%Y\<close> is \<open>\d\d\d\d\<close>.\<close>

definition re_d :: "string matcher" where
  "re_d =
     m_alt (m_group (m_seq (m_lit CHR ''3'') (m_cls (in_range CHR ''0'' CHR ''1''))))
     (m_alt (m_group (m_seq (m_cls (in_range CHR ''1'' CHR ''2'')) (m_cls ascii_digit)))
     (m_alt (m_group (m_seq (m_lit CHR ''0'') (m_cls (in_range CHR ''1'' CHR ''9''))))
     (m_alt (m_group (m_cls (in_range CHR ''1'' CHR ''9'')))
            (m_group (m_seq (m_lit CHR '' '') (m_cls (in_range CHR ''1'' CHR ''9'')))))))"

definition re_m :: "string matcher" where
  "re_m =
     m_alt (m_group (m_seq (m_lit CHR ''1'') (m_cls (in_range CHR ''0'' CHR ''2''))))
     (m_alt (m_group (m_seq (m_lit CHR ''0'') (m_cls (in_range CHR ''1'' CHR ''9''))))
            (m_group (m_cls (in_range CHR ''1'' CHR ''9''))))"

definition re_Y :: "string matcher" where
  "re_Y = m_group
     (m_seq (m_cls ascii_digit) (m_seq (m_cls ascii_digit) (m_seq (m_cls ascii_digit) (m_cls ascii_digit))))"

text \<open>\<open>int(group)\<close> on a matched group: the group is digits, possibly after one
  space, which \<open>int\<close> skips.\<close>

definition group_int :: "string \<Rightarrow> nat" where
  "group_int g = foldl (\<lambda>n c. 10 * n + digit_val c) 0 (filter ascii_digit g)"

text \<open>The first match, the check that it consumed the whole string, and the date.\<close>

definition strptime_first :: "(string \<times> string \<times> string) matcher \<Rightarrow> string \<Rightarrow> exc + date" where
  "strptime_first re s =
     (case re s of
        [] \<Rightarrow> Inl ValueError
      | ((y, m, d), rest) # _ \<Rightarrow>
          if rest \<noteq> [] then Inl ValueError else py_date (group_int y) (group_int m) (group_int d))"

definition strptime_Ymd :: "string \<Rightarrow> exc + date" where
  "strptime_Ymd =
     strptime_first (\<lambda>s. map (\<lambda>((y, _, m, _, d), r). ((y, m, d), r))
       (m_seq re_Y (m_seq (m_lit CHR ''-'') (m_seq re_m (m_seq (m_lit CHR ''-'') re_d))) s))"

definition strptime_dmY :: "string \<Rightarrow> exc + date" where
  "strptime_dmY =
     strptime_first (\<lambda>s. map (\<lambda>((d, _, m, _, y), r). ((y, m, d), r))
       (m_seq re_d (m_seq (m_lit CHR ''.'') (m_seq re_m (m_seq (m_lit CHR ''.'') re_Y))) s))"

section \<open>Calendar arithmetic\<close>

lemma days_before_year_nat: "days_before_year (Suc n) = int (dby_nat n)"
proof -
  have le: "n div 100 \<le> n div 4" by (rule div_le_mono2) simp_all
  have "int n div 4 = int (n div 4)" "int n div 100 = int (n div 100)" "int n div 400 = int (n div 400)"
    by (simp_all add: zdiv_int)
  with le show ?thesis
    by (simp add: days_before_year_def dby_nat_def of_nat_diff Let_def)
qed

lemma dvd_step: "Suc n mod 400 = 0 \<Longrightarrow> Suc n mod 100 = 0" "Suc n mod 100 = 0 \<Longrightarrow> Suc n mod 4 = 0"
  by (auto simp: mod_eq_0_iff_dvd intro: dvd_trans[of 100 400] dvd_trans[of 4 100])

lemma dby_nat_Suc: "dby_nat (Suc n) = dby_nat n + days_in_year (Suc n)"
proof -
  have le: "n div 100 \<le> n div 4" by (rule div_le_mono2) simp_all
  have d4: "Suc n div 4 = n div 4 + (if Suc n mod 4 = 0 then 1 else 0)"
    and d100: "Suc n div 100 = n div 100 + (if Suc n mod 100 = 0 then 1 else 0)"
    and d400: "Suc n div 400 = n div 400 + (if Suc n mod 400 = 0 then 1 else 0)"
    by (simp_all add: div_Suc)
  obtain a b c where a: "n div 4 = a" and b: "n div 100 = b" and c: "n div 400 = c" by blast
  note abc = d4 d100 d400 a b c
  consider (c400) "Suc n mod 400 = 0" | (c100) "Suc n mod 400 \<noteq> 0" "Suc n mod 100 = 0"
    | (c4) "Suc n mod 100 \<noteq> 0" "Suc n mod 4 = 0" | (c1) "Suc n mod 4 \<noteq> 0"
    by blast
  then show ?thesis
  proof cases
    case c400
    with dvd_step[of n] have "Suc n mod 100 = 0" "Suc n mod 4 = 0" by simp_all
    with c400 le a b show ?thesis
      unfolding dby_nat_def days_in_year_def is_leap_def abc by (simp; linarith?)
  next
    case c100
    with dvd_step[of n] have "Suc n mod 4 = 0" by simp
    with c100 le a b show ?thesis
      unfolding dby_nat_def days_in_year_def is_leap_def abc by (simp; linarith?)
  next
    case c4
    with dvd_step[of n] have "Suc n mod 400 \<noteq> 0" by auto
    with c4 le a b show ?thesis
      unfolding dby_nat_def days_in_year_def is_leap_def abc by (simp; linarith?)
  next
    case c1
    with dvd_step(2)[of n] have h100: "Suc n mod 100 \<noteq> 0" by blast
    with dvd_step(1)[of n] have "Suc n mod 400 \<noteq> 0" by blast
    note this h100
    with c1 le a b show ?thesis
      unfolding dby_nat_def days_in_year_def is_leap_def abc by (simp; linarith?)
  qed
qed

lemma days_before_year_Suc:
  "1 \<le> y \<Longrightarrow> days_before_year (Suc y) = days_before_year y + int (days_in_year y)"
proof -
  assume "1 \<le> y"
  then obtain n where y: "y = Suc n" by (cases y) auto
  show ?thesis
    unfolding y days_before_year_nat dby_nat_Suc by simp
qed

lemma month_cases: "1 \<le> m \<Longrightarrow> m \<le> (12::nat) \<Longrightarrow>
  m = 1 \<or> m = 2 \<or> m = 3 \<or> m = 4 \<or> m = 5 \<or> m = 6 \<or> m = 7 \<or> m = 8 \<or> m = 9 \<or> m = 10 \<or> m = 11 \<or> m = 12"
  by presburger

lemma days_before_month_Suc:
  assumes "1 \<le> m" "m < 12"
  shows "days_before_month y (Suc m) = days_before_month y m + days_in_month y m"
proof -
  from assms have "m = 1 \<or> m = 2 \<or> m = 3 \<or> m = 4 \<or> m = 5 \<or> m = 6 \<or> m = 7 \<or> m = 8 \<or> m = 9
      \<or> m = 10 \<or> m = 11 \<or> m = 12" by (intro month_cases) simp_all
  with assms(2) show ?thesis
    by (elim disjE) (simp_all add: days_before_month_def days_in_month_def)
qed

lemma days_in_month_bounds:
  assumes "1 \<le> m" "m \<le> 12"
  shows "28 \<le> days_in_month y m \<and> days_in_month y m \<le> 31"
  using month_cases[OF assms] by (elim disjE) (simp_all add: days_in_month_def)

lemma days_before_month_last: "days_before_month y 12 + days_in_month y 12 = days_in_year y"
  by (simp add: days_before_month_def days_in_month_def days_in_year_def)

lemma days_before_month_mono:
  "1 \<le> m1 \<Longrightarrow> m1 < m2 \<Longrightarrow> m2 \<le> 12 \<Longrightarrow>
   days_before_month y m1 + days_in_month y m1 \<le> days_before_month y m2"
proof (induction m2)
  case 0
  then show ?case by simp
next
  case (Suc k)
  show ?case
  proof (cases "m1 = k")
    case True
    with Suc.prems show ?thesis by (simp add: days_before_month_Suc)
  next
    case False
    with Suc.prems have "m1 < k" by simp
    with Suc.IH Suc.prems have "days_before_month y m1 + days_in_month y m1 \<le> days_before_month y k"
      by simp
    moreover have "days_before_month y (Suc k) = days_before_month y k + days_in_month y k"
      using Suc.prems \<open>m1 < k\<close> by (simp add: days_before_month_Suc)
    ultimately show ?thesis by simp
  qed
qed

lemma days_before_month_in_year:
  "1 \<le> m \<Longrightarrow> m \<le> 12 \<Longrightarrow> days_before_month y m + days_in_month y m \<le> days_in_year y"
proof (cases "m = 12")
  case True
  then show ?thesis by (simp add: days_before_month_last)
next
  case False
  assume "1 \<le> m" "m \<le> 12"
  with False have "days_before_month y m + days_in_month y m \<le> days_before_month y 12"
    by (simp add: days_before_month_mono)
  then show ?thesis using days_before_month_last[of y] by simp
qed

lemma toordinal_bounds:
  assumes "valid_date a"
  shows "days_before_year (year a) + int (days_before_month (year a) (month a)) < toordinal a"
    and "toordinal a \<le> days_before_year (year a) + int (days_in_year (year a))"
proof -
  from assms have m: "1 \<le> month a" "month a \<le> 12" and d: "1 \<le> day a" "day a \<le> days_in_month (year a) (month a)"
    by (simp_all add: valid_date_def valid_ymd_def)
  show "days_before_year (year a) + int (days_before_month (year a) (month a)) < toordinal a"
    using d by (simp add: toordinal_def)
  have "days_before_month (year a) (month a) + day a \<le> days_in_year (year a)"
    using days_before_month_in_year[OF m, of "year a"] d by simp
  then show "toordinal a \<le> days_before_year (year a) + int (days_in_year (year a))"
    by (simp add: toordinal_def)
qed

lemma days_before_year_mono:
  "1 \<le> y1 \<Longrightarrow> y1 < y2 \<Longrightarrow> days_before_year y1 + int (days_in_year y1) \<le> days_before_year y2"
proof (induction y2)
  case 0
  then show ?case by simp
next
  case (Suc k)
  show ?case
  proof (cases "y1 = k")
    case True
    with Suc.prems show ?thesis by (simp add: days_before_year_Suc)
  next
    case False
    with Suc.prems have "y1 < k" by simp
    with Suc.IH Suc.prems have "days_before_year y1 + int (days_in_year y1) \<le> days_before_year k" by simp
    moreover have "days_before_year (Suc k) = days_before_year k + int (days_in_year k)"
      using Suc.prems \<open>y1 < k\<close> by (simp add: days_before_year_Suc)
    ultimately show ?thesis by simp
  qed
qed

lemma toordinal_strict_mono:
  assumes va: "valid_date a" and vb: "valid_date b" and lt: "date_lt a b"
  shows "toordinal a < toordinal b"
proof -
  have ya: "1 \<le> year a" and ma: "1 \<le> month a" using va by (simp_all add: valid_date_def valid_ymd_def)
  have mb: "month b \<le> 12" using vb by (simp add: valid_date_def valid_ymd_def)
  consider (y) "year a < year b" | (m) "year a = year b" "month a < month b"
    | (d) "year a = year b" "month a = month b" "day a < day b"
    using lt by (auto simp: date_lt_def)
  then show ?thesis
  proof cases
    case y
    then show ?thesis
      using toordinal_bounds[OF va] toordinal_bounds[OF vb] days_before_year_mono[OF ya y] by simp
  next
    case m
    have "days_before_month (year a) (month a) + days_in_month (year a) (month a) \<le> days_before_month (year a) (month b)"
      using days_before_month_mono[OF ma m(2) mb] .
    moreover have "day a \<le> days_in_month (year a) (month a)" using va by (simp add: valid_date_def valid_ymd_def)
    moreover have "1 \<le> day b" using vb by (simp add: valid_date_def valid_ymd_def)
    ultimately show ?thesis using m by (simp add: toordinal_def)
  next
    case d
    then show ?thesis by (simp add: toordinal_def)
  qed
qed

lemma date_lt_total: "\<not> date_lt a b \<Longrightarrow> date_lt b a \<or> (year a = year b \<and> month a = month b \<and> day a = day b)"
  by (auto simp: date_lt_def)

section \<open>strftime and strptime\<close>

lemma of_char_digit_char [simp]: "b < 10 \<Longrightarrow> (of_char (digit_char b) :: nat) = 48 + b"
  by (simp add: digit_char_def)

lemma ascii_digit_digit_char [simp]: "b < 10 \<Longrightarrow> ascii_digit (digit_char b)"
  by (simp add: ascii_digit_def)

lemma digit_val_digit_char [simp]: "b < 10 \<Longrightarrow> digit_val (digit_char b) = b"
  by (simp add: digit_val_def)

lemma digit_char_eq_iff: "b < 10 \<Longrightarrow> c < 10 \<Longrightarrow> digit_char b = digit_char c \<longleftrightarrow> b = c"
  by (metis of_char_digit_char add_left_cancel)

lemma digit_char_lit [simp]:
  "digit_char 0 = CHR ''0''" "digit_char 1 = CHR ''1''" "digit_char (Suc 0) = CHR ''1''"
  "digit_char 2 = CHR ''2''" "digit_char 3 = CHR ''3''"
  by (simp_all add: digit_char_def char_of_eq_iff)

lemma in_range_digit_char [simp]:
  "b < 10 \<Longrightarrow> in_range lo hi (digit_char b) \<longleftrightarrow> of_char lo \<le> 48 + b \<and> 48 + b \<le> (of_char hi :: nat)"
  by (simp add: in_range_def)

lemma m_lit_Cons [simp]: "m_lit c (x # r) = (if x = c then [((), r)] else [])"
  by (simp add: m_lit_def)

lemma m_cls_Cons [simp]: "m_cls P (x # r) = (if P x then [(x, r)] else [])"
  by (simp add: m_cls_def)

lemma m_seq_simps [simp]:
  "m_seq p q s = concat (map (\<lambda>(a, r). map (\<lambda>(b, r'). ((a, b), r')) (q r)) (p s))"
  by (simp add: m_seq_def)

lemma re_d_pad2:
  assumes "1 \<le> k" "k \<le> 31"
  shows "\<exists>ps. re_d (pad2 k @ rest) = (pad2 k, rest) # ps"
proof -
  have k: "k div 10 < 4" "k mod 10 < 10" using assms by simp_all
  consider (a0) "k div 10 = 0" | (a12) "k div 10 = 1 \<or> k div 10 = 2" | (a3) "k div 10 = 3"
    using k by linarith
  then show ?thesis
  proof cases
    case a0
    then have "1 \<le> k mod 10" using assms by simp
    with a0 k show ?thesis
      by (simp add: re_d_def m_alt_def m_group_def pad2_def)
  next
    case a12
    with k show ?thesis
      by (auto simp add: re_d_def m_alt_def m_group_def pad2_def digit_char_eq_iff)
  next
    case a3
    have "k = 10 * (k div 10) + k mod 10" by simp
    with a3 assms have "k mod 10 \<le> 1" by linarith
    with a3 k show ?thesis
      by (simp add: re_d_def m_alt_def m_group_def pad2_def)
  qed
qed

lemma re_m_pad2:
  assumes "1 \<le> k" "k \<le> 12"
  shows "\<exists>ps. re_m (pad2 k @ rest) = (pad2 k, rest) # ps"
proof -
  have k: "k div 10 < 2" "k mod 10 < 10" using assms by simp_all
  have dm: "k = 10 * (k div 10) + k mod 10" by simp
  consider (a0) "k div 10 = 0" | (a1) "k div 10 = 1"
    using k by linarith
  then show ?thesis
  proof cases
    case a0
    with dm assms have "1 \<le> k mod 10" by linarith
    with a0 k show ?thesis
      by (simp add: re_m_def m_alt_def m_group_def pad2_def)
  next
    case a1
    with dm assms have "k mod 10 \<le> 2" by linarith
    with a1 k show ?thesis
      by (simp add: re_m_def m_alt_def m_group_def pad2_def)
  qed
qed

lemma re_Y_pad4: "re_Y (pad4 y @ rest) = [(pad4 y, rest)]"
  by (simp add: re_Y_def m_group_def pad4_def)

lemma group_int_pad2: "k < 100 \<Longrightarrow> group_int (pad2 k) = k"
  by (simp add: group_int_def pad2_def)

lemma group_int_pad4:
  assumes "y < 10000"
  shows "group_int (pad4 y) = y"
proof -
  have a: "y = 10 * (y div 10) + y mod 10" by simp
  have e1: "y div 10 div 10 = y div 100" and e2: "y div 100 div 10 = y div 1000"
    by (simp_all add: div_mult2_eq[symmetric])
  have b: "y div 10 = 10 * (y div 100) + y div 10 mod 10"
    using div_mult_mod_eq[of "y div 10" 10] e1 by simp
  have c: "y div 100 = 10 * (y div 1000) + y div 100 mod 10"
    using div_mult_mod_eq[of "y div 100" 10] e2 by simp
  have d: "y div 1000 < 10" using assms by simp
  from a b c d show ?thesis
    by (simp add: group_int_def pad4_def)
qed

lemma valid_date_fields:
  assumes "valid_date d"
  shows "1 \<le> day d" "day d \<le> 31" "1 \<le> month d" "month d \<le> 12" "1 \<le> year d" "year d < 10000"
  using assms days_in_month_bounds[of "month d" "year d"]
  by (auto simp: valid_date_def valid_ymd_def MAXYEAR_def)

lemma py_date_valid: "valid_date d \<Longrightarrow> py_date (year d) (month d) (day d) = Inr d"
  by (simp add: py_date_def valid_date_def)

lemma strptime_dmY_strftime:
  assumes v: "valid_date d"
  shows "strptime_dmY (strftime_dmY d) = Inr d"
proof -
  note f = valid_date_fields[OF v]
  obtain ps1 where 1: "re_d (pad2 (day d) @ ''.'' @ pad2 (month d) @ ''.'' @ pad4 (year d))
      = (pad2 (day d), ''.'' @ pad2 (month d) @ ''.'' @ pad4 (year d)) # ps1"
    using re_d_pad2 f by blast
  obtain ps2 where 2: "re_m (pad2 (month d) @ ''.'' @ pad4 (year d)) = (pad2 (month d), ''.'' @ pad4 (year d)) # ps2"
    using re_m_pad2 f by blast
  have 3: "re_Y (pad4 (year d)) = [(pad4 (year d), [])]"
    using re_Y_pad4[of "year d" "[]"] by simp
  show ?thesis
    unfolding strptime_dmY_def strptime_first_def strftime_dmY_def
    using 1 2 3 f by (simp add: group_int_pad2 group_int_pad4 py_date_valid[OF v])
qed

lemma strptime_Ymd_strftime:
  assumes v: "valid_date d"
  shows "strptime_Ymd (strftime_Ymd d) = Inr d"
proof -
  note f = valid_date_fields[OF v]
  have 1: "re_Y (pad4 (year d) @ ''-'' @ pad2 (month d) @ ''-'' @ pad2 (day d))
      = [(pad4 (year d), ''-'' @ pad2 (month d) @ ''-'' @ pad2 (day d))]"
    by (rule re_Y_pad4)
  obtain ps2 where 2: "re_m (pad2 (month d) @ ''-'' @ pad2 (day d)) = (pad2 (month d), ''-'' @ pad2 (day d)) # ps2"
    using re_m_pad2 f by blast
  obtain ps3 where 3: "re_d (pad2 (day d)) = (pad2 (day d), []) # ps3"
    using re_d_pad2[of "day d" "[]"] f by auto
  show ?thesis
    unfolding strptime_Ymd_def strptime_first_def strftime_Ymd_def
    using 1 2 3 f by (simp add: group_int_pad2 group_int_pad4 py_date_valid[OF v])
qed

lemma strptime_first_valid: "strptime_first re s = Inr d \<Longrightarrow> valid_date d"
  by (auto simp: strptime_first_def py_date_def valid_date_def split: list.splits prod.splits if_splits)

lemma strptime_first_error: "strptime_first re s = Inl e \<Longrightarrow> e = ValueError"
  by (auto simp: strptime_first_def py_date_def split: list.splits prod.splits if_splits)

lemma strptime_Ymd_valid: "strptime_Ymd s = Inr d \<Longrightarrow> valid_date d"
  unfolding strptime_Ymd_def by (rule strptime_first_valid)

lemma strptime_dmY_valid: "strptime_dmY s = Inr d \<Longrightarrow> valid_date d"
  unfolding strptime_dmY_def by (rule strptime_first_valid)

lemma strptime_Ymd_error: "strptime_Ymd s = Inl e \<Longrightarrow> e = ValueError"
  unfolding strptime_Ymd_def by (rule strptime_first_error)

lemma strptime_dmY_error: "strptime_dmY s = Inl e \<Longrightarrow> e = ValueError"
  unfolding strptime_dmY_def by (rule strptime_first_error)

end
