(* ===== verification/Field_Values.thy ===== *)
theory Field_Values
  imports Dates
begin

text \<open>
  The field value types of \<open>src/main.py\<close>: \<open>Name\<close>, \<open>Phone\<close> and \<open>Birthday\<close>
  (the subclasses of \<open>Field\<close>). A field object is a constructor holding its
  \<open>value\<close>; \<open>Field.__eq__\<close> compares values, which is the equality of the
  datatype. The validating property setters are the fallible smart constructors
  \<open>new_Name\<close>, \<open>new_Phone\<close>, \<open>new_Birthday\<close>, which return the object or the
  exception the setter raises.
\<close>

section \<open>Name\<close>

datatype Name = Name (name_value: string)

text \<open>\<open>Name(value)\<close>: the setter stores any string.\<close>

definition new_Name :: "string \<Rightarrow> Name" where
  "new_Name value = Name value"

section \<open>Phone\<close>

datatype Phone = Phone (phone_value: string)

text \<open>\<open>is_code_valid(phone_code)\<close>, local to the setter: the first two characters
  of the code contain \<open>06\<close> or \<open>09\<close>.\<close>

definition is_code_valid :: "string \<Rightarrow> bool" where
  "is_code_valid phone_code \<longleftrightarrow>
     py_in ''06'' (py_slice phone_code 0 2) \<or> py_in ''09'' (py_slice phone_code 0 2)"

text \<open>The setter of \<open>Phone.value\<close>. The two \<open>if\<close>s run in sequence, the second
  overwriting \<open>valid_phone\<close>; \<open>phone_num[0]\<close> is the slice \<open>[0:1]\<close>, as
  \<open>phone_num\<close> is non-empty once \<open>isdigit\<close> holds.\<close>

definition new_Phone :: "string \<Rightarrow> exc + Phone" where
  "new_Phone value =
     (let phone_num = py_removeprefix ''+'' value;
          valid_phone =
            (if py_isdigit phone_num then
               (let v1 = (if py_in ''0'' (py_slice phone_num 0 1) \<and> length phone_num = 10
                              \<and> is_code_valid (py_slice phone_num 0 3)
                          then Some (''+38'' @ phone_num) else None)
                in if py_in ''380'' (py_slice phone_num 0 3) \<and> length phone_num = 12
                      \<and> is_code_valid (py_slice phone_num 2 5)
                   then Some (''+'' @ phone_num) else v1)
             else None)
      in case valid_phone of None \<Rightarrow> Inl ValueError | Some v \<Rightarrow> Inr (Phone v))"

text \<open>The canonical form every accepted phone takes: \<open>+380\<close>, an operator digit
  \<open>6\<close> or \<open>9\<close>, eight further digits (in the sense of \<open>str.isdigit\<close>).\<close>

definition phone_canonical :: "string \<Rightarrow> bool" where
  "phone_canonical v \<longleftrightarrow>
     length v = 13 \<and> take 4 v = ''+380'' \<and> v ! 4 \<in> {CHR ''6'', CHR ''9''}
     \<and> list_all py_digit_char (drop 5 v)"

text \<open>What the setter accepts, read off the code: after one leading \<open>+\<close> is
  removed, a digit string of length 10 starting \<open>06\<close> or \<open>09\<close> (a national
  number) gets the prefix \<open>+38\<close>; one of length 12 starting \<open>3806\<close> or
  \<open>3809\<close> (an international number) gets the prefix \<open>+\<close>.\<close>

definition national_ok :: "string \<Rightarrow> bool" where
  "national_ok s \<longleftrightarrow> length s = 10 \<and> take 2 s \<in> {''06'', ''09''}"

definition international_ok :: "string \<Rightarrow> bool" where
  "international_ok s \<longleftrightarrow> length s = 12 \<and> take 4 s \<in> {''3806'', ''3809''}"

section \<open>Birthday\<close>

datatype Birthday = Birthday (birthday_value: "date option")

text \<open>The setter of \<open>Birthday.value\<close>: \<open>None\<close> is stored as is; a string is
  parsed as \<open>%Y-%m-%d\<close>, on \<open>ValueError\<close> as \<open>%d.%m.%Y\<close>, and a second
  \<open>ValueError\<close> becomes the program's \<open>DateError\<close>.\<close>

definition new_Birthday :: "string option \<Rightarrow> exc + Birthday" where
  "new_Birthday value =
     (case value of
        None \<Rightarrow> Inr (Birthday None)
      | Some v \<Rightarrow>
          (case strptime_Ymd v of
             Inr d \<Rightarrow> Inr (Birthday (Some d))
           | Inl e \<Rightarrow>
               if e = ValueError then
                 (case strptime_dmY v of
                    Inr d \<Rightarrow> Inr (Birthday (Some d))
                  | Inl e' \<Rightarrow> if e' = ValueError then Inl DateError else Inl e')
               else Inl e))"

text \<open>\<open>Birthday.__str__\<close>.\<close>

definition Birthday_str :: "Birthday \<Rightarrow> string" where
  "Birthday_str b =
     (case birthday_value b of None \<Rightarrow> ''No date'' | Some d \<Rightarrow> strftime_dbY d)"

section \<open>Properties of the phone setter\<close>

subsection \<open>The guards of the setter\<close>

lemma is_code_valid_iff:
  "2 \<le> length x \<Longrightarrow> is_code_valid x \<longleftrightarrow> take 2 x \<in> {''06'', ''09''}"
  by (simp add: is_code_valid_def sublist_same_length min_def)

lemma national_guard:
  "py_in ''0'' (py_slice s 0 1) \<and> length s = 10 \<and> is_code_valid (py_slice s 0 3)
     \<longleftrightarrow> national_ok s"
proof (cases "length s = 10")
  case True
  then obtain a b t where s: "s = a # b # t"
    using Cons2_of_length[of s] by auto
  show ?thesis
    unfolding s national_ok_def
    by (simp add: is_code_valid_iff sublist_same_length) blast
qed (simp add: national_ok_def)

lemma international_guard:
  "py_in ''380'' (py_slice s 0 3) \<and> length s = 12 \<and> is_code_valid (py_slice s 2 5)
     \<longleftrightarrow> international_ok s"
proof (cases "length s = 12")
  case True
  then obtain a b c d t where s: "s = a # b # c # d # t"
    using Cons4_of_length[of s] by auto
  show ?thesis
    unfolding s international_ok_def
    by (simp add: is_code_valid_iff sublist_same_length py_slice_def) blast
qed (simp add: international_ok_def)

text \<open>The setter in closed form: the international branch is tested last in the
  code and overwrites, so it is the first case here.\<close>

lemma new_Phone_eq:
  "new_Phone raw =
     (let s = py_removeprefix ''+'' raw in
      if py_isdigit s \<and> international_ok s then Inr (Phone (''+'' @ s))
      else if py_isdigit s \<and> national_ok s then Inr (Phone (''+38'' @ s))
      else Inl ValueError)"
  unfolding new_Phone_def Let_def national_guard international_guard
  by simp

lemma py_digit_char_ascii [simp]:
  "py_digit_char CHR ''0''" "py_digit_char CHR ''3''" "py_digit_char CHR ''6''"
  "py_digit_char CHR ''8''" "py_digit_char CHR ''9''"
  by (simp_all add: py_digit_char_def)

lemma phone_canonical_shape:
  "phone_canonical v \<longleftrightarrow>
     (\<exists>c rest. v = ''+380'' @ c # rest \<and> c \<in> {CHR ''6'', CHR ''9''} \<and> length rest = 8
        \<and> list_all py_digit_char rest)"
proof
  assume "phone_canonical v"
  then have len: "length v = 13" and pre: "take 4 v = ''+380''" and c: "v ! 4 \<in> {CHR ''6'', CHR ''9''}"
    and d: "list_all py_digit_char (drop 5 v)"
    by (simp_all add: phone_canonical_def)
  have "v = take 4 v @ v ! 4 # drop (Suc 4) v"
    using id_take_nth_drop[of 4 v] len by simp
  with pre have "v = ''+380'' @ v ! 4 # drop 5 v" by simp
  moreover have "length (drop 5 v) = 8" using len by simp
  ultimately show "\<exists>c rest. v = ''+380'' @ c # rest \<and> c \<in> {CHR ''6'', CHR ''9''} \<and> length rest = 8
        \<and> list_all py_digit_char rest"
    using c d by blast
next
  assume "\<exists>c rest. v = ''+380'' @ c # rest \<and> c \<in> {CHR ''6'', CHR ''9''} \<and> length rest = 8
        \<and> list_all py_digit_char rest"
  then show "phone_canonical v"
    by (auto simp: phone_canonical_def)
qed

lemma accepted_canonical:
  assumes "new_Phone raw = Inr p"
  shows "phone_canonical (phone_value p)"
proof -
  define s where "s = py_removeprefix ''+'' raw"
  have dig: "py_isdigit s" and cases: "international_ok s \<and> p = Phone (''+'' @ s)
      \<or> \<not> international_ok s \<and> national_ok s \<and> p = Phone (''+38'' @ s)"
    using assms by (auto simp: new_Phone_eq s_def[symmetric] Let_def split: if_splits)
  from cases show ?thesis
  proof
    assume i: "international_ok s \<and> p = Phone (''+'' @ s)"
    then obtain a b c d t where st: "s = a # b # c # d # t"
      using Cons4_of_length[of s] by (auto simp: international_ok_def)
    with i dig show ?thesis
      by (auto simp: phone_canonical_def international_ok_def)
  next
    assume n: "\<not> international_ok s \<and> national_ok s \<and> p = Phone (''+38'' @ s)"
    then obtain a b t where st: "s = a # b # t"
      using Cons2_of_length[of s] by (auto simp: national_ok_def)
    with n dig show ?thesis
      by (auto simp: phone_canonical_def national_ok_def)
  qed
qed

lemma canonical_accepted:
  assumes "phone_canonical v"
  shows "new_Phone v = Inr (Phone v)"
proof -
  obtain c rest where v: "v = ''+380'' @ c # rest" and c: "c \<in> {CHR ''6'', CHR ''9''}"
    and len: "length rest = 8" and d: "list_all py_digit_char rest"
    using assms phone_canonical_shape by blast
  have dc: "py_digit_char c" using c by auto
  have "international_ok (''380'' @ c # rest)"
    using c len by (auto simp: international_ok_def)
  then show ?thesis
    using dc d by (simp add: new_Phone_eq v)
qed

section \<open>Phone: properties\<close>

text \<open>C2: \<open>Phone(raw)\<close> succeeds exactly on a digit string (after one leading
  \<open>+\<close> is removed) that is a national number \<open>0[69]\<close> plus eight digits, stored
  with the prefix \<open>+38\<close>, or an international number \<open>380[69]\<close> plus eight
  digits, stored with the prefix \<open>+\<close>.\<close>

theorem new_Phone_result:
  "new_Phone raw = Inr p \<longleftrightarrow>
     (let s = py_removeprefix ''+'' raw in
      py_isdigit s \<and>
      (international_ok s \<and> p = Phone (''+'' @ s) \<or> national_ok s \<and> p = Phone (''+38'' @ s)))"
  by (auto simp: new_Phone_eq Let_def international_ok_def national_ok_def)

theorem new_Phone_result_witness:
  "new_Phone ''+380671234567'' = Inr (Phone ''+380671234567'')
   \<and> new_Phone ''0971234567'' = Inr (Phone ''+380971234567'')"
  using new_Phone_result [of "''+380671234567''" "Phone ''+380671234567''"]
        new_Phone_result [of "''0971234567''" "Phone ''+380971234567''"]
  by (simp add: international_ok_def national_ok_def py_isdigit_def py_digit_char_def)

text \<open>C4: every phone the setter accepts is stored in the canonical form
  \<open>+380\<close>, operator digit \<open>6\<close> or \<open>9\<close>, eight more digits.\<close>

theorem new_Phone_canonical:
  "new_Phone raw = Inr p \<Longrightarrow> phone_canonical (phone_value p)"
  by (rule accepted_canonical)

theorem new_Phone_canonical_witness:
  "new_Phone ''0671234567'' = Inr (Phone ''+380671234567'') \<and> phone_canonical ''+380671234567''"
proof -
  have e: "new_Phone ''0671234567'' = Inr (Phone ''+380671234567'')"
    by (simp add: new_Phone_eq national_ok_def international_ok_def py_isdigit_def py_digit_char_def)
  show ?thesis using e new_Phone_canonical [OF e] by simp
qed

text \<open>C27: the setter is idempotent: setting a phone to the value of an accepted
  phone accepts it again with the same value, so a stored value round-trips.\<close>

theorem new_Phone_idempotent:
  "new_Phone raw = Inr p \<Longrightarrow> new_Phone (phone_value p) = Inr p"
  using accepted_canonical canonical_accepted by (metis Phone.collapse)

theorem new_Phone_idempotent_witness:
  "new_Phone ''380991234567'' = Inr (Phone ''+380991234567'')
   \<and> new_Phone ''+380991234567'' = Inr (Phone ''+380991234567'')"
proof -
  have e: "new_Phone ''380991234567'' = Inr (Phone ''+380991234567'')"
    by (simp add: new_Phone_eq national_ok_def international_ok_def py_isdigit_def py_digit_char_def)
  show ?thesis using e new_Phone_idempotent [OF e] by simp
qed

text \<open>An example of the digit test \<open>str.isdigit\<close>: it accepts Unicode digits such as
  the superscript two, so \<open>Phone\<close> takes them into a number.\<close>

lemma new_Phone_superscript_digits:
  "new_Phone (''067'' @ [CHR 0xB2, CHR 0xB2, CHR 0xB2, CHR 0xB2, CHR 0xB2, CHR 0xB2, CHR 0xB2])
     = Inr (Phone (''+38067'' @ [CHR 0xB2, CHR 0xB2, CHR 0xB2, CHR 0xB2, CHR 0xB2, CHR 0xB2, CHR 0xB2]))"
proof -
  let ?s = "''067'' @ [CHR 0xB2, CHR 0xB2, CHR 0xB2, CHR 0xB2, CHR 0xB2, CHR 0xB2, CHR 0xB2]"
  have "py_isdigit ?s" by (simp add: py_isdigit_def py_digit_char_def)
  moreover have "national_ok ?s" by (simp add: national_ok_def)
  moreover have "\<not> international_ok ?s" by (simp add: international_ok_def)
  ultimately show ?thesis by (simp add: new_Phone_eq)
qed

section \<open>Birthday: properties\<close>

lemma re_Y_dmY_fails: "re_Y (pad2 a @ CHR ''.'' # r) = []"
  by (simp add: re_Y_def m_group_def pad2_def ascii_digit_def)

lemma strptime_Ymd_on_dmY: "strptime_Ymd (strftime_dmY d) = Inl ValueError"
  by (simp add: strptime_Ymd_def strptime_first_def strftime_dmY_def re_Y_dmY_fails)

lemma new_Birthday_Ymd: "valid_date d \<Longrightarrow> new_Birthday (Some (strftime_Ymd d)) = Inr (Birthday (Some d))"
  by (simp add: new_Birthday_def strptime_Ymd_strftime)

lemma new_Birthday_dmY: "valid_date d \<Longrightarrow> new_Birthday (Some (strftime_dmY d)) = Inr (Birthday (Some d))"
  by (simp add: new_Birthday_def strptime_Ymd_on_dmY strptime_dmY_strftime)

lemma new_Birthday_Inr:
  "new_Birthday v = Inr b \<Longrightarrow>
     (case birthday_value b of None \<Rightarrow> v = None | Some d \<Rightarrow> v \<noteq> None \<and> valid_date d)"
  by (auto simp: new_Birthday_def split: option.splits sum.splits if_splits
      dest: strptime_Ymd_valid strptime_dmY_valid)

lemma new_Birthday_Inl:
  "new_Birthday v = Inl e \<Longrightarrow> e = DateError \<and> v \<noteq> None"
  by (auto simp: new_Birthday_def split: option.splits sum.splits if_splits
      dest: strptime_Ymd_error strptime_dmY_error)

text \<open>C14: a valid date written as \<open>%Y-%m-%d\<close> and the same date written as
  \<open>%d.%m.%Y\<close> both give the birthday holding that date.\<close>

theorem new_Birthday_formats:
  assumes "valid_date d"
  shows "new_Birthday (Some (strftime_Ymd d)) = Inr (Birthday (Some d))
     \<and> new_Birthday (Some (strftime_dmY d)) = Inr (Birthday (Some d))"
  using new_Birthday_Ymd[OF assms] new_Birthday_dmY[OF assms] by simp

theorem new_Birthday_formats_witness:
  "new_Birthday (Some ''1990-01-05'') = Inr (Birthday (Some \<lparr>year = 1990, month = 1, day = 5\<rparr>))
   \<and> new_Birthday (Some ''05.01.1990'') = Inr (Birthday (Some \<lparr>year = 1990, month = 1, day = 5\<rparr>))"
proof -
  have v: "valid_date \<lparr>year = 1990, month = 1, day = 5\<rparr>"
    by (simp add: valid_date_def valid_ymd_def MAXYEAR_def days_in_month_def)
  have "strftime_Ymd \<lparr>year = 1990, month = 1, day = 5\<rparr> = ''1990-01-05''"
    and "strftime_dmY \<lparr>year = 1990, month = 1, day = 5\<rparr> = ''05.01.1990''"
    by (simp_all add: strftime_Ymd_def strftime_dmY_def pad2_def pad4_def digit_char_def char_of_eq_iff)
  with new_Birthday_formats[OF v] show ?thesis by simp
qed

text \<open>C15: a birthday the setter builds holds either no date, exactly when it was
  given \<open>None\<close>, or a real calendar date.\<close>

theorem new_Birthday_valid:
  "new_Birthday v = Inr b \<Longrightarrow>
     (birthday_value b = None \<longleftrightarrow> v = None)
     \<and> (case birthday_value b of None \<Rightarrow> True | Some d \<Rightarrow> valid_date d)"
  using new_Birthday_Inr[of v b] by (auto split: option.splits)

theorem new_Birthday_valid_witness:
  "new_Birthday (Some ''29.02.2000'') = Inr (Birthday (Some \<lparr>year = 2000, month = 2, day = 29\<rparr>))
   \<and> valid_date \<lparr>year = 2000, month = 2, day = 29\<rparr>"
proof -
  have e: "new_Birthday (Some ''29.02.2000'') = Inr (Birthday (Some \<lparr>year = 2000, month = 2, day = 29\<rparr>))"
    by code_simp
  show ?thesis using e new_Birthday_valid [OF e] by simp
qed

text \<open>C16: the setter fails only with \<open>DateError\<close>, and only on a string.\<close>

theorem new_Birthday_error:
  "new_Birthday v = Inl e \<Longrightarrow> e = DateError \<and> v \<noteq> None"
  by (rule new_Birthday_Inl)

theorem new_Birthday_error_witness:
  "new_Birthday (Some ''29.02.1900'') = Inl DateError \<and> new_Birthday (Some ''not-a-date'') = Inl DateError"
proof -
  have a: "new_Birthday (Some ''29.02.1900'') = Inl DateError" by code_simp
  have b: "new_Birthday (Some ''not-a-date'') = Inl DateError" by code_simp
  show ?thesis using new_Birthday_error [OF a] new_Birthday_error [OF b] a b by simp
qed

text \<open>An example of \<open>strptime\<close>'s leniency: single-digit fields and a space before
  a number are accepted.\<close>

lemma new_Birthday_lenient:
  "new_Birthday (Some ''1990-1- 5'') = Inr (Birthday (Some \<lparr>year = 1990, month = 1, day = 5\<rparr>))
   \<and> new_Birthday (Some ''5.1.1990'') = Inr (Birthday (Some \<lparr>year = 1990, month = 1, day = 5\<rparr>))"
  by code_simp

end
