(* ===== verification/Contact_Record.thy ===== *)
theory Contact_Record
  imports Field_Values "HOL-Library.Multiset"
begin

text \<open>
  The class \<open>Record\<close> of \<open>src/main.py\<close>: a name, a list of phones and a birthday.
  The mutating methods return the updated record, or the exception \<open>list.remove\<close>
  raises; \<open>days_to_hp\<close> takes \<open>date.today()\<close> as its first argument.
  \<open>Record.__init__\<close> has the mutable default \<open>phones=[]\<close>, shared between calls
  that omit it; the program always passes a fresh list (\<open>add\<close> builds
  \<open>Record(name, [m_phone], birthday)\<close>), so the sharing is never observable and the
  constructor is modelled with its argument.
\<close>

record Record =
  name :: Name
  phone_l :: "Phone list"
  birthday :: Birthday

text \<open>\<open>Record(name, phones, birthday)\<close>.\<close>

definition new_Record :: "Name \<Rightarrow> Phone list \<Rightarrow> Birthday \<Rightarrow> Record" where
  "new_Record n phones b = \<lparr>name = n, phone_l = phones, birthday = b\<rparr>"

text \<open>\<open>add_p\<close>: \<open>self.phone_l.append(phone_num)\<close>.\<close>

definition add_p :: "Record \<Rightarrow> Phone \<Rightarrow> Record" where
  "add_p r p = r\<lparr>phone_l := phone_l r @ [p]\<rparr>"

text \<open>\<open>del_p\<close>: \<open>self.phone_l.remove(phone_num)\<close>.\<close>

definition del_p :: "Record \<Rightarrow> Phone \<Rightarrow> exc + Record" where
  "del_p r p =
     (case py_remove p (phone_l r) of Inl e \<Rightarrow> Inl e | Inr l \<Rightarrow> Inr (r\<lparr>phone_l := l\<rparr>))"

text \<open>\<open>change_p\<close>: remove the old number, then append the new one; when the removal
  raises, the append is not reached.\<close>

definition change_p :: "Record \<Rightarrow> Phone \<Rightarrow> Phone \<Rightarrow> exc + Record" where
  "change_p r p q =
     (case py_remove p (phone_l r) of
        Inl e \<Rightarrow> Inl e
      | Inr l \<Rightarrow> Inr (r\<lparr>phone_l := l @ [q]\<rparr>))"

text \<open>\<open>days_to_hp(self, birthday)\<close> with \<open>right_now = date.today()\<close>: the
  birthday in this year, or in the next one if it has passed; each \<open>date(...)\<close>
  call may raise \<open>ValueError\<close>. The record itself is not read.\<close>

definition days_to_hp :: "date \<Rightarrow> Record \<Rightarrow> Birthday \<Rightarrow> exc + int option" where
  "days_to_hp right_now self b =
     (case birthday_value b of
        None \<Rightarrow> Inr None
      | Some bv \<Rightarrow>
          (case py_date (year right_now) (month bv) (day bv) of
             Inl e \<Rightarrow> Inl e
           | Inr birthday_day \<Rightarrow>
               if date_lt birthday_day right_now then
                 (case py_date (year right_now + 1) (month bv) (day bv) of
                    Inl e \<Rightarrow> Inl e
                  | Inr next_day \<Rightarrow> Inr (Some (date_sub_days next_day right_now)))
               else Inr (Some (date_sub_days birthday_day right_now))))"

text \<open>\<open>Record.__str__\<close>; \<open>{self.name}\<close> prints the name's value.\<close>

definition Record_str :: "Record \<Rightarrow> string" where
  "Record_str r =
     ''User '' @ name_value (name r) @ '' - Numbers: ''
     @ py_join '', '' (map phone_value (phone_l r)) @ '' '' @ ''- Birthday: '' @ Birthday_str (birthday r)"

section \<open>Days to the next birthday\<close>

lemma leap_not_consecutive: "is_leap y \<Longrightarrow> \<not> is_leap (Suc y)"
proof -
  have "y mod 4 = 0 \<Longrightarrow> Suc y mod 4 \<noteq> 0" by presburger
  then show "is_leap y \<Longrightarrow> \<not> is_leap (Suc y)" by (simp add: is_leap_def)
qed

lemma one_year_gap:
  assumes "valid_ymd y m d" "valid_ymd (Suc y) m d"
  shows "toordinal \<lparr>year = Suc y, month = m, day = d\<rparr> - toordinal \<lparr>year = y, month = m, day = d\<rparr> \<le> 366"
proof -
  have y: "1 \<le> y" using assms(1) by (simp add: valid_ymd_def)
  have "toordinal \<lparr>year = Suc y, month = m, day = d\<rparr> - toordinal \<lparr>year = y, month = m, day = d\<rparr>
      = int (days_in_year y) + int (days_before_month (Suc y) m) - int (days_before_month y m)"
    by (simp add: toordinal_def days_before_year_Suc[OF y])
  moreover have "int (days_in_year y) + int (days_before_month (Suc y) m) - int (days_before_month y m) \<le> 366"
    using leap_not_consecutive[of y]
    by (cases "is_leap y"; cases "is_leap (Suc y)"; cases "2 < m")
       (simp_all add: days_in_year_def days_before_month_def)
  ultimately show ?thesis by simp
qed

lemma toordinal_fields:
  "year a = year b \<Longrightarrow> month a = month b \<Longrightarrow> day a = day b \<Longrightarrow> toordinal a = toordinal b"
  by (simp add: toordinal_def)

lemma valid_date_make [simp]: "valid_date \<lparr>year = y, month = m, day = d\<rparr> \<longleftrightarrow> valid_ymd y m d"
  by (simp add: valid_date_def)

text \<open>The two successful outcomes of \<open>days_to_hp\<close>.\<close>

lemma days_to_hp_SomeE:
  assumes "days_to_hp t r b = Inr (Some k)" "birthday_value b = Some bv"
  obtains (this_year) "valid_ymd (year t) (month bv) (day bv)"
      "\<not> date_lt \<lparr>year = year t, month = month bv, day = day bv\<rparr> t"
      "k = toordinal \<lparr>year = year t, month = month bv, day = day bv\<rparr> - toordinal t"
  | (next_year) "valid_ymd (year t) (month bv) (day bv)"
      "date_lt \<lparr>year = year t, month = month bv, day = day bv\<rparr> t"
      "valid_ymd (Suc (year t)) (month bv) (day bv)"
      "k = toordinal \<lparr>year = Suc (year t), month = month bv, day = day bv\<rparr> - toordinal t"
  using assms
  by (auto simp: days_to_hp_def py_date_def date_sub_days_def split: if_splits)

lemma days_to_hp_bounds_aux:
  assumes vt: "valid_date t" and r: "days_to_hp t r b = Inr (Some k)" and bv: "birthday_value b = Some bv"
  shows "0 \<le> k \<and> k \<le> 365"
  using r bv
proof (cases rule: days_to_hp_SomeE)
  case this_year
  let ?e = "\<lparr>year = year t, month = month bv, day = day bv\<rparr>"
  have ve: "valid_date ?e" using this_year by simp
  have "date_lt t ?e \<or> (year ?e = year t \<and> month ?e = month t \<and> day ?e = day t)"
    using date_lt_total[OF this_year(2)] by simp
  then have "toordinal t \<le> toordinal ?e"
    using toordinal_strict_mono[OF vt ve] toordinal_fields[of ?e t] by fastforce
  moreover have "toordinal ?e \<le> days_before_year (year t) + int (days_in_year (year t))"
    using toordinal_bounds(2)[OF ve] by simp
  moreover have "days_before_year (year t) < toordinal t"
    using toordinal_bounds(1)[OF vt] by simp
  moreover have "days_in_year (year t) \<le> 366" by (simp add: days_in_year_def)
  ultimately show ?thesis using this_year(3) by linarith
next
  case next_year
  let ?e = "\<lparr>year = year t, month = month bv, day = day bv\<rparr>"
  let ?n = "\<lparr>year = Suc (year t), month = month bv, day = day bv\<rparr>"
  have ve: "valid_date ?e" and vn: "valid_date ?n" using next_year by simp_all
  have "toordinal ?e < toordinal t" using toordinal_strict_mono[OF ve vt next_year(2)] .
  moreover have "toordinal t < toordinal ?n"
    using toordinal_strict_mono[OF vt vn] by (simp add: date_lt_def)
  moreover have "toordinal ?n - toordinal ?e \<le> 366"
    using one_year_gap next_year(1,3) by simp
  ultimately show ?thesis using next_year(4) by linarith
qed

lemma date_lt_fields:
  "year a = year a' \<Longrightarrow> month a = month a' \<Longrightarrow> day a = day a' \<Longrightarrow> date_lt a b \<longleftrightarrow> date_lt a' b"
  by (simp add: date_lt_def)

lemma days_to_hp_next_aux:
  assumes vt: "valid_date t" and r: "days_to_hp t r b = Inr (Some k)" and bv: "birthday_value b = Some bv"
  shows "\<exists>e. valid_date e \<and> month e = month bv \<and> day e = day bv \<and> toordinal e = toordinal t + k
           \<and> (\<forall>e'. valid_date e' \<and> month e' = month bv \<and> day e' = day bv \<and> toordinal t \<le> toordinal e'
                 \<longrightarrow> toordinal e \<le> toordinal e')"
  using r bv
proof (cases rule: days_to_hp_SomeE)
  case this_year
  let ?e = "\<lparr>year = year t, month = month bv, day = day bv\<rparr>"
  have ve: "valid_date ?e" using this_year by simp
  have least: "toordinal ?e \<le> toordinal e'"
    if v': "valid_date e'" and m': "month e' = month bv" and d': "day e' = day bv"
      and ge: "toordinal t \<le> toordinal e'" for e'
  proof -
    consider (lt) "year e' < year t" | (eq) "year e' = year t" | (gt) "year t < year e'" by linarith
    then show ?thesis
    proof cases
      case lt
      then have "toordinal e' < toordinal t"
        using toordinal_strict_mono[OF v' vt] by (simp add: date_lt_def)
      with ge show ?thesis by simp
    next
      case eq
      then show ?thesis using m' d' toordinal_fields[of ?e e'] by simp
    next
      case gt
      then show ?thesis
        using toordinal_strict_mono[OF ve v'] by (simp add: date_lt_def)
    qed
  qed
  show ?thesis
    using ve this_year(3) least by (intro exI[of _ ?e]) auto
next
  case next_year
  let ?e = "\<lparr>year = year t, month = month bv, day = day bv\<rparr>"
  let ?n = "\<lparr>year = Suc (year t), month = month bv, day = day bv\<rparr>"
  have ve: "valid_date ?e" and vn: "valid_date ?n" using next_year by simp_all
  have least: "toordinal ?n \<le> toordinal e'"
    if v': "valid_date e'" and m': "month e' = month bv" and d': "day e' = day bv"
      and ge: "toordinal t \<le> toordinal e'" for e'
  proof -
    consider (le) "year e' \<le> year t" | (eq) "year e' = Suc (year t)" | (gt) "Suc (year t) < year e'"
      by linarith
    then show ?thesis
    proof cases
      case le
      have "date_lt e' t"
      proof (cases "year e' = year t")
        case True
        then show ?thesis using next_year(2) date_lt_fields[of ?e e' t] m' d' by simp
      next
        case False
        with le show ?thesis by (simp add: date_lt_def)
      qed
      then have "toordinal e' < toordinal t" using toordinal_strict_mono[OF v' vt] by simp
      with ge show ?thesis by simp
    next
      case eq
      then show ?thesis using m' d' toordinal_fields[of ?n e'] by simp
    next
      case gt
      then show ?thesis
        using toordinal_strict_mono[OF vn v'] by (simp add: date_lt_def)
    qed
  qed
  show ?thesis
    using vn next_year(4) least by (intro exI[of _ ?n]) auto
qed

lemma days_to_hp_None_iff: "days_to_hp t r b = Inr None \<longleftrightarrow> birthday_value b = None"
  by (auto simp: days_to_hp_def split: option.splits sum.splits if_splits)

lemma days_to_hp_leap_day:
  assumes "birthday_value b = Some bv" "month bv = 2" "day bv = 29" "\<not> is_leap (year t)"
  shows "days_to_hp t r b = Inl ValueError"
  using assms by (simp add: days_to_hp_def py_date_def valid_ymd_def days_in_month_def)

lemma day_any_year:
  assumes "valid_date bv" "\<not> (month bv = 2 \<and> day bv = 29)"
  shows "valid_ymd y (month bv) (day bv) \<longleftrightarrow> 1 \<le> y \<and> y \<le> MAXYEAR"
proof -
  have m: "1 \<le> month bv" "month bv \<le> 12" and d: "1 \<le> day bv" "day bv \<le> days_in_month (year bv) (month bv)"
    using assms(1) by (simp_all add: valid_date_def valid_ymd_def)
  have "day bv \<le> days_in_month y (month bv)"
  proof (cases "month bv = 2")
    case True
    then have "day bv \<le> 29" using d(2) by (simp add: days_in_month_def split: if_splits)
    with True assms(2) have "day bv \<le> 28" by simp
    with True show ?thesis by (simp add: days_in_month_def)
  next
    case False
    then show ?thesis using d(2) by (simp add: days_in_month_def)
  qed
  then show ?thesis using m d(1) by (auto simp: valid_ymd_def)
qed

lemma valid_ymd_feb29: "valid_ymd y 2 29 \<longleftrightarrow> 1 \<le> y \<and> y \<le> MAXYEAR \<and> is_leap y"
  by (simp add: valid_ymd_def days_in_month_def)

lemma days_to_hp_Some_iff:
  assumes "birthday_value b = Some bv"
  shows "(\<exists>k. days_to_hp t r b = Inr (Some k)) \<longleftrightarrow>
           valid_ymd (year t) (month bv) (day bv)
           \<and> (date_lt \<lparr>year = year t, month = month bv, day = day bv\<rparr> t \<longrightarrow> valid_ymd (Suc (year t)) (month bv) (day bv))"
  using assms by (auto simp: days_to_hp_def py_date_def)

section \<open>The phone list\<close>

lemma del_p_Inl: "del_p r p = Inl e \<longleftrightarrow> p \<notin> set (phone_l r) \<and> e = ValueError"
  by (auto simp: del_p_def py_remove_def)

lemma del_p_Inr: "del_p r p = Inr r' \<longleftrightarrow> p \<in> set (phone_l r) \<and> r' = r\<lparr>phone_l := remove1 p (phone_l r)\<rparr>"
  by (auto simp: del_p_def py_remove_def)

lemma change_p_Inl: "change_p r p q = Inl e \<longleftrightarrow> p \<notin> set (phone_l r) \<and> e = ValueError"
  by (auto simp: change_p_def py_remove_def)

lemma change_p_Inr:
  "change_p r p q = Inr r' \<longleftrightarrow> p \<in> set (phone_l r) \<and> r' = r\<lparr>phone_l := remove1 p (phone_l r) @ [q]\<rparr>"
  by (auto simp: change_p_def py_remove_def)

lemma set_add_p [simp]: "set (phone_l (add_p r p)) = insert p (set (phone_l r))"
  by (auto simp: add_p_def)

text \<open>C17: \<open>days_to_hp\<close> counts between 0 and 365 days.\<close>

theorem days_to_hp_bounds:
  assumes "valid_date t" "days_to_hp t r b = Inr (Some k)"
  shows "0 \<le> k \<and> k \<le> 365"
proof -
  obtain bv where "birthday_value b = Some bv"
    using assms(2) by (cases "birthday_value b") (simp_all add: days_to_hp_def)
  then show ?thesis using days_to_hp_bounds_aux assms by blast
qed

theorem days_to_hp_bounds_witness:
  "valid_date \<lparr>year = 2023, month = 3, day = 2\<rparr>
   \<and> days_to_hp \<lparr>year = 2023, month = 3, day = 2\<rparr> (new_Record (Name ''Ann'') [] (Birthday None))
         (Birthday (Some \<lparr>year = 1990, month = 3, day = 1\<rparr>)) = Inr (Some 365)
   \<and> (0::int) \<le> 365 \<and> (365::int) \<le> 365"
proof -
  have v: "valid_date \<lparr>year = 2023, month = 3, day = 2\<rparr>" by code_simp
  have e: "days_to_hp \<lparr>year = 2023, month = 3, day = 2\<rparr> (new_Record (Name ''Ann'') [] (Birthday None))
         (Birthday (Some \<lparr>year = 1990, month = 3, day = 1\<rparr>)) = Inr (Some 365)" by code_simp
  show ?thesis using days_to_hp_bounds[OF v e] v e by simp
qed

text \<open>C5: when \<open>days_to_hp\<close> returns \<open>k\<close>, the day \<open>k\<close> days after today is a real
  date with the birthday's month and day, and no such date lies between today and it.\<close>

theorem days_to_hp_next_birthday:
  assumes "valid_date t" "birthday_value b = Some bv" "days_to_hp t r b = Inr (Some k)"
  shows "\<exists>e. valid_date e \<and> month e = month bv \<and> day e = day bv \<and> toordinal e = toordinal t + k
           \<and> (\<forall>e'. valid_date e' \<and> month e' = month bv \<and> day e' = day bv \<and> toordinal t \<le> toordinal e'
                 \<longrightarrow> toordinal e \<le> toordinal e')"
  using days_to_hp_next_aux assms by blast

theorem days_to_hp_next_birthday_witness:
  "\<exists>e. valid_date e \<and> month e = 3 \<and> day e = 1
     \<and> toordinal e = toordinal \<lparr>year = 2023, month = 3, day = 2\<rparr> + 365
     \<and> (\<forall>e'. valid_date e' \<and> month e' = 3 \<and> day e' = 1
           \<and> toordinal \<lparr>year = 2023, month = 3, day = 2\<rparr> \<le> toordinal e' \<longrightarrow> toordinal e \<le> toordinal e')"
proof -
  have v: "valid_date \<lparr>year = 2023, month = 3, day = 2\<rparr>" by code_simp
  have b: "birthday_value (Birthday (Some \<lparr>year = 1990, month = 3, day = 1\<rparr>)) = Some \<lparr>year = 1990, month = 3, day = 1\<rparr>"
    by simp
  have e: "days_to_hp \<lparr>year = 2023, month = 3, day = 2\<rparr> (new_Record (Name ''Ann'') [] (Birthday None))
         (Birthday (Some \<lparr>year = 1990, month = 3, day = 1\<rparr>)) = Inr (Some 365)" by code_simp
  show ?thesis using days_to_hp_next_birthday[OF v b e] by simp
qed

text \<open>C18: for a valid today and a known, valid birthday, \<open>days_to_hp\<close> returns a day
  count exactly when both \<open>date(...)\<close> calls it makes succeed: for a 29 February
  birthday only in a leap year before the birthday has passed (afterwards
  \<open>date(year + 1, 2, 29)\<close> raises), and for any other birthday except in the
  last year \<open>9999\<close> once the birthday has passed (\<open>date(10000, ...)\<close> raises).\<close>

theorem days_to_hp_defined_iff:
  assumes vt: "valid_date t" and bv: "birthday_value b = Some bv" and vb: "valid_date bv"
  shows "(\<exists>k. days_to_hp t r b = Inr (Some k)) \<longleftrightarrow>
           (if month bv = 2 \<and> day bv = 29
            then is_leap (year t) \<and> \<not> date_lt \<lparr>year = year t, month = 2, day = 29\<rparr> t
            else year t < MAXYEAR \<or> \<not> date_lt \<lparr>year = year t, month = month bv, day = day bv\<rparr> t)"
proof -
  have y: "1 \<le> year t" "year t \<le> MAXYEAR" using vt by (simp_all add: valid_date_def valid_ymd_def)
  show ?thesis
  proof (cases "month bv = 2 \<and> day bv = 29")
    case True
    have "is_leap (year t) \<Longrightarrow> \<not> is_leap (Suc (year t))" by (rule leap_not_consecutive)
    then show ?thesis using True y by (auto simp: days_to_hp_Some_iff[OF bv] valid_ymd_feb29)
  next
    case False
    then show ?thesis using y by (auto simp: days_to_hp_Some_iff[OF bv] day_any_year[OF vb False])
  qed
qed

theorem days_to_hp_defined_iff_witness:
  "\<not> (\<exists>k. days_to_hp \<lparr>year = 2024, month = 3, day = 2\<rparr> (new_Record (Name ''Ann'') [] (Birthday (Some \<lparr>year = 2000, month = 2, day = 29\<rparr>))) (Birthday (Some \<lparr>year = 2000, month = 2, day = 29\<rparr>)) = Inr (Some k))"
proof -
  have vt: "valid_date \<lparr>year = 2024, month = 3, day = 2\<rparr>" and vb: "valid_date \<lparr>year = 2000, month = 2, day = 29\<rparr>" by code_simp+
  have "date_lt \<lparr>year = year \<lparr>year = 2024, month = 3, day = 2\<rparr>, month = 2, day = 29\<rparr> \<lparr>year = 2024, month = 3, day = 2\<rparr>" by code_simp
  then show ?thesis
    using days_to_hp_defined_iff[where b = "Birthday (Some \<lparr>year = 2000, month = 2, day = 29\<rparr>)"
        and r = "new_Record (Name ''Ann'') [] (Birthday (Some \<lparr>year = 2000, month = 2, day = 29\<rparr>))", OF vt _ vb]
    by simp
qed

text \<open>C31: a birthday on the 29th of February makes \<open>days_to_hp\<close> raise \<open>ValueError\<close>
  in every year that is not a leap year, since \<open>date(right_now.year, 2, 29)\<close> is
  built before any comparison.\<close>

theorem days_to_hp_leap_birthday_error:
  assumes "birthday_value b = Some bv" "month bv = 2" "day bv = 29" "\<not> is_leap (year t)"
  shows "days_to_hp t r b = Inl ValueError"
  using days_to_hp_leap_day assms .

theorem days_to_hp_leap_birthday_error_witness:
  "days_to_hp \<lparr>year = 2023, month = 3, day = 2\<rparr> (new_Record (Name ''Ann'') [] (Birthday None))
     (Birthday (Some \<lparr>year = 2000, month = 2, day = 29\<rparr>)) = Inl ValueError"
proof -
  have "\<not> is_leap 2023" by (simp add: is_leap_def)
  then show ?thesis
    using days_to_hp_leap_birthday_error [of "Birthday (Some \<lparr>year = 2000, month = 2, day = 29\<rparr>)"
        "\<lparr>year = 2000, month = 2, day = 29\<rparr>" "\<lparr>year = 2023, month = 3, day = 2\<rparr>"]
    by simp
qed

text \<open>C19: \<open>del_p\<close> raises \<open>ValueError\<close> exactly when the phone is absent; otherwise
  it removes one occurrence of it and changes nothing else.\<close>

theorem del_p_spec:
  "(del_p r p = Inl e \<longleftrightarrow> p \<notin> set (phone_l r) \<and> e = ValueError)
   \<and> (del_p r p = Inr r' \<longrightarrow>
        mset (phone_l r') = mset (phone_l r) - {#p#} \<and> p \<in># mset (phone_l r)
        \<and> name r' = name r \<and> birthday r' = birthday r)"
  by (auto simp: del_p_Inl del_p_Inr mset_remove1)

theorem del_p_spec_witness:
  "del_p (new_Record (Name ''Ann'') [Phone ''+380671234567'', Phone ''+380971234567''] (Birthday None))
       (Phone ''+380971234567'')
     = Inr (new_Record (Name ''Ann'') [Phone ''+380671234567''] (Birthday None))
   \<and> del_p (new_Record (Name ''Ann'') [Phone ''+380671234567''] (Birthday None)) (Phone ''+380971234567'')
     = Inl ValueError"
  using del_p_spec [of "new_Record (Name ''Ann'') [Phone ''+380671234567''] (Birthday None)"
      "Phone ''+380971234567''" ValueError]
  by (simp add: del_p_def py_remove_def new_Record_def)

text \<open>C20: \<open>change_p\<close> is all or nothing: it raises \<open>ValueError\<close> exactly when the
  old phone is absent; otherwise one occurrence of the old phone is replaced by the new
  one, appended at the end.\<close>

theorem change_p_spec:
  "(change_p r p q = Inl e \<longleftrightarrow> p \<notin> set (phone_l r) \<and> e = ValueError)
   \<and> (change_p r p q = Inr r' \<longrightarrow>
        mset (phone_l r') = mset (phone_l r) - {#p#} + {#q#} \<and> last (phone_l r') = q
        \<and> name r' = name r \<and> birthday r' = birthday r)"
  by (auto simp: change_p_Inl change_p_Inr mset_remove1)

theorem change_p_spec_witness:
  "change_p (new_Record (Name ''Ann'') [Phone ''+380671234567'', Phone ''+380971234567''] (Birthday None))
       (Phone ''+380671234567'') (Phone ''+380501234567'')
     = Inr (new_Record (Name ''Ann'') [Phone ''+380971234567'', Phone ''+380501234567''] (Birthday None))
   \<and> change_p (new_Record (Name ''Ann'') [] (Birthday None)) (Phone ''+380671234567'') (Phone ''+380501234567'')
     = Inl ValueError"
  using change_p_spec [of "new_Record (Name ''Ann'') [] (Birthday None)" "Phone ''+380671234567''"
      "Phone ''+380501234567''" ValueError]
  by (simp add: change_p_def py_remove_def new_Record_def)

end
