(* ===== verification/AddressBook.thy ===== *)
theory AddressBook
  imports Contact_Record
begin

text \<open>
  The class \<open>AddressBook\<close> of \<open>src/main.py\<close>: a \<open>UserDict\<close> from the name's
  value to the record, with the file it is pickled to. The dictionary is an association
  list in insertion order. The file system is a map from paths to file contents; a
  file written by \<open>save\<close> holds the pickled dictionary, which \<open>pickle.load\<close> gives
  back as it was written (the byte format is not modelled), and any other content makes
  \<open>pickle.load\<close> raise. \<open>iterator\<close> is a generator; the callers consume it whole, so
  it is modelled as the list of the pages it yields.
\<close>

type_synonym book_data = "(string \<times> Record) list"

datatype file_content = Pickled book_data | Unreadable

type_synonym file_system = "string \<Rightarrow> file_content option"

record AddressBook =
  data :: book_data
  filename :: string

text \<open>\<open>AddressBook(filename)\<close>: an empty dictionary, replaced by the file's contents
  when the file exists.\<close>

definition new_AddressBook :: "file_system \<Rightarrow> string \<Rightarrow> exc + AddressBook" where
  "new_AddressBook fs fname =
     (case fs fname of
        None \<Rightarrow> Inr \<lparr>data = [], filename = fname\<rparr>
      | Some (Pickled d) \<Rightarrow> Inr \<lparr>data = d, filename = fname\<rparr>
      | Some Unreadable \<Rightarrow> Inl UnpicklingError)"

text \<open>\<open>save\<close>: \<open>pickle.dump(self.data, db)\<close> over the whole file.\<close>

definition save :: "AddressBook \<Rightarrow> file_system \<Rightarrow> file_system" where
  "save b fs = fs(filename b \<mapsto> Pickled (data b))"

text \<open>\<open>add_record\<close>: \<open>self.data[record.name.value] = record\<close>.\<close>

definition add_record :: "AddressBook \<Rightarrow> Record \<Rightarrow> AddressBook" where
  "add_record b r = b\<lparr>data := py_setitem (data b) (name_value (name r)) r\<rparr>"

text \<open>The module constant \<open>N\<close>, the page size.\<close>

definition N :: nat where
  "N = 2"

definition newline :: string where
  "newline = [CHR 0x0A]"

text \<open>\<open>'Page ' + str(i) + '\n'\<close>.\<close>

definition page_header :: "nat \<Rightarrow> string" where
  "page_header i = ''Page '' @ py_str_nat i @ newline"

text \<open>\<open>func is None or func(record)\<close>.\<close>

definition selected :: "(Record \<Rightarrow> bool) option \<Rightarrow> Record \<Rightarrow> bool" where
  "selected func r = (case func of None \<Rightarrow> True | Some f \<Rightarrow> f r)"

text \<open>The \<open>for\<close> loop of \<open>iterator\<close> over the remaining records, with its variables
  \<open>i\<close>, \<open>index\<close> and \<open>print_block\<close>; the final \<open>yield print_block\<close> is the
  last page.\<close>

fun iterator_loop :: "nat \<Rightarrow> (Record \<Rightarrow> bool) option \<Rightarrow> Record list \<Rightarrow> nat \<Rightarrow> nat \<Rightarrow> string \<Rightarrow> string list" where
  "iterator_loop n func [] i index print_block = [print_block]"
| "iterator_loop n func (record # rs) i index print_block =
     (if selected func record then
        (let print_block' = print_block @ Record_str record @ newline in
         if index < n then iterator_loop n func rs i (index + 1) print_block'
         else print_block' # iterator_loop n func rs (i + 1) 1 (page_header (i + 1)))
      else iterator_loop n func rs i index print_block)"

definition iterator :: "AddressBook \<Rightarrow> (Record \<Rightarrow> bool) option \<Rightarrow> string list" where
  "iterator b func = iterator_loop N func (map snd (data b)) 0 1 (page_header 0)"

section \<open>The store invariant\<close>

text \<open>What every book the program builds satisfies: keys are distinct (a dictionary)
  and each is the value of its record's name; every phone is canonical; every birthday
  is unknown or a real date.\<close>

definition birthday_ok :: "Birthday \<Rightarrow> bool" where
  "birthday_ok b \<longleftrightarrow> (case birthday_value b of None \<Rightarrow> True | Some d \<Rightarrow> valid_date d)"

definition record_ok :: "Record \<Rightarrow> bool" where
  "record_ok r \<longleftrightarrow>
     list_all (\<lambda>p. phone_canonical (phone_value p)) (phone_l r) \<and> birthday_ok (birthday r)"

definition book_inv :: "book_data \<Rightarrow> bool" where
  "book_inv d \<longleftrightarrow> distinct (map fst d) \<and> list_all (\<lambda>(k, r). k = name_value (name r) \<and> record_ok r) d"

section \<open>The paging specification\<close>

text \<open>What the generator promises: the selected records, rendered, cut into chunks of
  \<open>n\<close> with a last chunk of the remainder (empty when the count is a multiple of
  \<open>n\<close>), each chunk a page under its header.\<close>

function chunks :: "nat \<Rightarrow> 'a list \<Rightarrow> 'a list list" where
  "chunks n xs = (if n = 0 \<or> length xs < n then [xs] else take n xs # chunks n (drop n xs))"
  by pat_completeness auto
termination
  by (relation "measure (\<lambda>(n, xs). length xs)") auto

declare chunks.simps [simp del]

definition render :: "string list \<Rightarrow> string" where
  "render items = concat (map (\<lambda>s. s @ newline) items)"

definition pages_from :: "nat \<Rightarrow> string list list \<Rightarrow> string list" where
  "pages_from i cs = map (\<lambda>(j, c). page_header j @ render c) (enumerate i cs)"

definition paginate :: "nat \<Rightarrow> string list \<Rightarrow> string list" where
  "paginate n items = pages_from 0 (chunks n items)"

section \<open>Paging\<close>

lemma selected_simps [simp]: "selected None = (\<lambda>r. True)" "selected (Some f) = f"
  by (simp_all add: selected_def fun_eq_iff)

lemma chunks_short: "length xs < n \<Longrightarrow> chunks n xs = [xs]"
  by (simp add: chunks.simps)

lemma chunks_long: "0 < n \<Longrightarrow> n \<le> length xs \<Longrightarrow> chunks n xs = take n xs # chunks n (drop n xs)"
  by (subst chunks.simps) simp

lemma pages_from_Cons: "pages_from i (c # cs) = (page_header i @ render c) # pages_from (Suc i) cs"
  by (simp add: pages_from_def)

lemma pages_from_single: "pages_from i [c] = [page_header i @ render c]"
  by (simp add: pages_from_def)

lemma render_snoc: "render (xs @ [x]) = render xs @ x @ newline"
  by (simp add: render_def)

lemma iterator_loop_pages:
  assumes "0 < n" "length pending < n"
  shows "iterator_loop n func recs i (Suc (length pending)) (page_header i @ render pending)
         = pages_from i (chunks n (pending @ map Record_str (filter (selected func) recs)))"
  using assms(2)
proof (induction recs arbitrary: i pending)
  case Nil
  then show ?case by (simp add: chunks_short pages_from_single)
next
  case (Cons r rs)
  show ?case
  proof (cases "selected func r")
    case False
    with Cons show ?thesis by simp
  next
    case sel: True
    show ?thesis
    proof (cases "Suc (length pending) < n")
      case True
      have "iterator_loop n func (r # rs) i (Suc (length pending)) (page_header i @ render pending)
          = iterator_loop n func rs i (Suc (length (pending @ [Record_str r])))
              (page_header i @ render (pending @ [Record_str r]))"
        using sel True by (simp add: render_snoc)
      also have "\<dots> = pages_from i (chunks n ((pending @ [Record_str r]) @ map Record_str (filter (selected func) rs)))"
        using True by (intro Cons.IH) simp
      finally show ?thesis using sel by simp
    next
      case False
      with Cons.prems have len: "Suc (length pending) = n" by simp
      let ?rest = "map Record_str (filter (selected func) rs)"
      have d: "n - length pending = 1" using len by simp
      have "chunks n (pending @ Record_str r # ?rest) = (pending @ [Record_str r]) # chunks n ?rest"
        using len assms(1) by (simp add: chunks_long d)
      moreover have "iterator_loop n func rs (Suc i) (Suc (length ([]::string list))) (page_header (Suc i) @ render [])
          = pages_from (Suc i) (chunks n ([] @ ?rest))"
        using assms(1) by (intro Cons.IH) simp
      ultimately show ?thesis
        using sel False by (simp add: render_snoc pages_from_Cons render_def)
    qed
  qed
qed

lemma iterator_paginate_aux:
  "0 < n \<Longrightarrow> iterator_loop n func recs 0 1 (page_header 0) = paginate n (map Record_str (filter (selected func) recs))"
  using iterator_loop_pages[of n "[]" func recs 0] by (simp add: paginate_def render_def)

lemma length_chunks: "0 < n \<Longrightarrow> length (chunks n xs) = length xs div n + 1"
proof (induction n xs rule: chunks.induct)
  case (1 n xs)
  show ?case
  proof (cases "length xs < n")
    case True
    then show ?thesis by (simp add: chunks_short)
  next
    case False
    with "1.prems" have "length (chunks n (drop n xs)) = length (drop n xs) div n + 1"
      by (intro "1.IH") simp_all
    moreover have "length xs div n = Suc ((length xs - n) div n)"
      using False "1.prems" by (simp add: le_div_geq)
    ultimately show ?thesis using False "1.prems" by (simp add: chunks_long)
  qed
qed

lemma chunks_concat: "concat (chunks n xs) = xs"
proof (induction n xs rule: chunks.induct)
  case (1 n xs)
  then show ?case by (subst chunks.simps) auto
qed

lemma chunks_sizes:
  "0 < n \<Longrightarrow> (\<forall>c \<in> set (butlast (chunks n xs)). length c = n) \<and> length (last (chunks n xs)) = length xs mod n"
proof (induction n xs rule: chunks.induct)
  case (1 n xs)
  show ?case
  proof (cases "length xs < n")
    case True
    then show ?thesis by (simp add: chunks_short)
  next
    case False
    with "1.prems" have IH: "(\<forall>c \<in> set (butlast (chunks n (drop n xs))). length c = n)
        \<and> length (last (chunks n (drop n xs))) = length (drop n xs) mod n"
      by (intro "1.IH") simp_all
    have ne: "chunks n (drop n xs) \<noteq> []" by (subst chunks.simps) simp
    have m: "length xs mod n = (length xs - n) mod n"
      using False by (simp add: le_mod_geq)
    have ch: "chunks n xs = take n xs # chunks n (drop n xs)"
      using False "1.prems" by (simp add: chunks_long)
    have bl: "butlast (chunks n xs) = take n xs # butlast (chunks n (drop n xs))"
      and la: "last (chunks n xs) = last (chunks n (drop n xs))"
      unfolding ch using ne by simp_all
    have "length (take n xs) = n" using False by simp
    with IH m show ?thesis unfolding bl la by simp
  qed
qed

section \<open>The store\<close>

lemma book_inv_update:
  assumes "book_inv d" "k = name_value (name r)" "record_ok r"
  shows "book_inv (py_setitem d k r)"
  using assms by (auto simp: book_inv_def distinct_update list_all_update)

lemma book_inv_Nil [simp]: "book_inv []"
  by (simp add: book_inv_def)

lemma add_record_inv: "book_inv (data b) \<Longrightarrow> record_ok r \<Longrightarrow> book_inv (data (add_record b r))"
  by (simp add: add_record_def book_inv_update)

lemma N_pos: "0 < N"
  by (simp add: N_def)

lemmas iterator_paging = iterator_def iterator_paginate_aux[OF N_pos, simplified]

lemma new_AddressBook_save: "new_AddressBook (save b fs) (filename b) = Inr b"
  by (simp add: new_AddressBook_def save_def)

text \<open>C6: the generator yields exactly the pages of the paging specification: the
  selected records in dictionary order, rendered, \<open>N\<close> to a page, with a last page
  for the remainder.\<close>

theorem iterator_refines_paginate:
  "iterator b func = paginate N (map Record_str (filter (selected func) (map snd (data b))))"
  by (simp add: iterator_paging)

text \<open>C25: \<open>iterator\<close> yields one page more than the number of full pages: the
  number of selected records divided by \<open>N\<close>, plus one.\<close>

theorem iterator_page_count:
  "length (iterator b func) = length (filter (selected func) (map snd (data b))) div N + 1"
proof -
  have "length (iterator b func) = length (chunks N (map Record_str (filter (selected func) (map snd (data b)))))"
    by (simp add: iterator_paging paginate_def pages_from_def)
  then show ?thesis by (simp add: length_chunks N_def)
qed

text \<open>C26: the pages list every selected record once, in order: all pages but the
  last hold \<open>N\<close> records, the last holds the remainder (possibly none).\<close>

theorem iterator_pages:
  "\<exists>cs. iterator b func = pages_from 0 cs
     \<and> concat cs = map Record_str (filter (selected func) (map snd (data b)))
     \<and> (\<forall>c \<in> set (butlast cs). length c = N)
     \<and> length (last cs) = length (filter (selected func) (map snd (data b))) mod N"
proof -
  let ?items = "map Record_str (filter (selected func) (map snd (data b)))"
  have "iterator b func = pages_from 0 (chunks N ?items)"
    by (simp add: iterator_paging paginate_def)
  moreover have "concat (chunks N ?items) = ?items" by (rule chunks_concat)
  moreover have "(\<forall>c \<in> set (butlast (chunks N ?items)). length c = N) \<and> length (last (chunks N ?items)) = length ?items mod N"
    by (rule chunks_sizes) (simp add: N_def)
  ultimately show ?thesis by (intro exI[of _ "chunks N ?items"]) simp
qed

theorem iterator_pages_witness:
  "\<exists>cs. iterator \<lparr>data = [(''A'', new_Record (Name ''A'') [] (Birthday None)),
                        (''B'', new_Record (Name ''B'') [] (Birthday None)),
                        (''C'', new_Record (Name ''C'') [] (Birthday None))],
                filename = ''book.dat''\<rparr> None = pages_from 0 cs
     \<and> concat cs = map Record_str [new_Record (Name ''A'') [] (Birthday None),
                                  new_Record (Name ''B'') [] (Birthday None),
                                  new_Record (Name ''C'') [] (Birthday None)]
     \<and> (\<forall>c \<in> set (butlast cs). length c = N) \<and> length (last cs) = 1"
  using iterator_pages[of "\<lparr>data = [(''A'', new_Record (Name ''A'') [] (Birthday None)),
                        (''B'', new_Record (Name ''B'') [] (Birthday None)),
                        (''C'', new_Record (Name ''C'') [] (Birthday None))],
                filename = ''book.dat''\<rparr>" None]
  by (simp add: selected_def N_def)

end
