(* ===== verification/Handlers.thy ===== *)
theory Handlers
  imports AddressBook
begin

text \<open>
  The command handlers of \<open>src/main.py\<close> and the decorator class \<open>InputError\<close>.
  A handler takes the book and the argument tuple and returns the value it returns
  with the book as it leaves it, or the exception it raises (\<open>exc + ...\<close>). None of
  the handlers changes the book before a statement that may raise, so a raised
  exception leaves the book as it was; \<open>InputError\<close> turns the four exceptions it
  catches into their messages and lets any other through. \<open>goodbye\<close> is the only
  handler that writes the file, and it is modelled in \<open>Session\<close>, where the file
  system lives. \<open>date.today()\<close> is the argument \<open>today\<close> of \<open>days_to_birthday\<close>.
\<close>

text \<open>The values the handlers return: a string, the \<open>Record\<close> that \<open>phone\<close>
  returns, and the \<open>None\<close> of \<open>goodbye\<close>.\<close>

datatype py_value = PyStr string | PyRec Record | PyNone

text \<open>\<open>print(result)\<close> prints \<open>str(result)\<close>.\<close>

definition py_str :: "py_value \<Rightarrow> string" where
  "py_str v = (case v of PyStr s \<Rightarrow> s | PyRec r \<Rightarrow> Record_str r | PyNone \<Rightarrow> ''None'')"

type_synonym handler_result = "exc + (py_value \<times> AddressBook)"

text \<open>\<open>InputError.__call__\<close>: the handler's result, or the message of the exception
  it raised, the book unchanged.\<close>

definition InputError :: "(AddressBook \<Rightarrow> string list \<Rightarrow> handler_result) \<Rightarrow> AddressBook \<Rightarrow> string list \<Rightarrow> handler_result" where
  "InputError func contacts args =
     (case func contacts args of
        Inr res \<Rightarrow> Inr res
      | Inl IndexError \<Rightarrow> Inr (PyStr ''Enter a name and phone!'', contacts)
      | Inl KeyError \<Rightarrow> Inr (PyStr ''Can`t find this user in list!'', contacts)
      | Inl ValueError \<Rightarrow> Inr (PyStr ''Phone number or birthday date is incorrect!'', contacts)
      | Inl DateError \<Rightarrow> Inr (PyStr ''Wrong date type!'', contacts)
      | Inl e \<Rightarrow> Inl e)"

definition greet :: "AddressBook \<Rightarrow> string list \<Rightarrow> handler_result" where
  "greet contacts args = Inr (PyStr ''How can I help you?'', contacts)"

text \<open>The birthday of a new contact in \<open>add\<close>: \<open>Birthday(args[2])\<close> when there
  is a third argument, \<open>Birthday(None)\<close> otherwise.\<close>

definition birthday_arg :: "string list \<Rightarrow> exc + Birthday" where
  "birthday_arg args = (if 2 < length args then new_Birthday (Some (args ! 2)) else new_Birthday None)"

text \<open>The body of \<open>add\<close>: a known name gets the phone appended unless it already has
  it; an unknown name gets a new record, with the birthday of the third argument if
  there is one. \<open>name.value in contacts\<close> and \<open>contacts[name.value]\<close> are the one
  lookup \<open>map_of\<close>.\<close>

definition add_raw :: "AddressBook \<Rightarrow> string list \<Rightarrow> handler_result" where
  "add_raw contacts args =
     (case py_nth args 0 of Inl e \<Rightarrow> Inl e | Inr a0 \<Rightarrow>
      let nm = new_Name a0 in
      case py_nth args 1 of Inl e \<Rightarrow> Inl e | Inr a1 \<Rightarrow>
      case new_Phone a1 of Inl e \<Rightarrow> Inl e | Inr m_phone \<Rightarrow>
      (case map_of (data contacts) (name_value nm) of
         Some r \<Rightarrow>
           if m_phone \<in> set (phone_l r)
           then Inr (PyStr (name_value nm @ ''`s contact has already had this number''), contacts)
           else Inr (PyStr (''Add phone '' @ phone_value m_phone @ '' to user '' @ name_value nm),
                     contacts\<lparr>data := py_setitem (data contacts) (name_value nm) (add_p r m_phone)\<rparr>)
       | None \<Rightarrow>
           (case birthday_arg args of
              Inl e \<Rightarrow> Inl e
            | Inr bd \<Rightarrow>
                Inr (PyStr (''Add user '' @ name_value nm @ '' with phone number '' @ phone_value m_phone),
                     contacts\<lparr>data := py_setitem (data contacts) (name_value nm) (new_Record nm [m_phone] bd)\<rparr>))))"

text \<open>\<open>add_data\<close>: the right-hand side \<open>Birthday(birthday)\<close> is evaluated before the
  target \<open>contacts[name]\<close>, so a bad date raises \<open>DateError\<close> even for an unknown
  name.\<close>

definition add_data_raw :: "AddressBook \<Rightarrow> string list \<Rightarrow> handler_result" where
  "add_data_raw contacts args =
     (case py_nth args 0 of Inl e \<Rightarrow> Inl e | Inr nm \<Rightarrow>
      case py_nth args 1 of Inl e \<Rightarrow> Inl e | Inr bs \<Rightarrow>
      case new_Birthday (Some bs) of Inl e \<Rightarrow> Inl e | Inr bd \<Rightarrow>
      case py_getitem (data contacts) nm of Inl e \<Rightarrow> Inl e | Inr r \<Rightarrow>
      Inr (PyStr (''Birthday date '' @ Birthday_str bd @ '' of '' @ nm @ '' was added or changed''),
           contacts\<lparr>data := py_setitem (data contacts) nm (r\<lparr>birthday := bd\<rparr>)\<rparr>))"

text \<open>\<open>f'{x}'\<close> of the value \<open>days_to_hp\<close> returns.\<close>

definition py_str_int_option :: "int option \<Rightarrow> string" where
  "py_str_int_option k = (case k of None \<Rightarrow> ''None'' | Some i \<Rightarrow> py_str_int i)"

definition days_to_birthday_raw :: "date \<Rightarrow> AddressBook \<Rightarrow> string list \<Rightarrow> handler_result" where
  "days_to_birthday_raw today contacts args =
     (case py_nth args 0 of Inl e \<Rightarrow> Inl e | Inr nm \<Rightarrow>
      case py_getitem (data contacts) nm of Inl e \<Rightarrow> Inl e | Inr r \<Rightarrow>
      if birthday_value (birthday r) = None then Inr (PyStr (nm @ '' has no birthday''), contacts)
      else
        (case days_to_hp today r (birthday r) of Inl e \<Rightarrow> Inl e | Inr k \<Rightarrow>
         Inr (PyStr (py_str_int_option k @ '' until '' @ nm @ ''`s birthday''), contacts)))"

text \<open>\<open>change\<close>: the lookup, then both \<open>Phone\<close> constructions, then
  \<open>change_p\<close>; the reply shows the normalised old number and the new one as typed.\<close>

definition change_raw :: "AddressBook \<Rightarrow> string list \<Rightarrow> handler_result" where
  "change_raw contacts args =
     (case py_nth args 0 of Inl e \<Rightarrow> Inl e | Inr nm \<Rightarrow>
      case py_nth args 1 of Inl e \<Rightarrow> Inl e | Inr prev_phone \<Rightarrow>
      case py_nth args 2 of Inl e \<Rightarrow> Inl e | Inr new_phone \<Rightarrow>
      case py_getitem (data contacts) nm of Inl e \<Rightarrow> Inl e | Inr r \<Rightarrow>
      case new_Phone prev_phone of Inl e \<Rightarrow> Inl e | Inr p \<Rightarrow>
      case new_Phone new_phone of Inl e \<Rightarrow> Inl e | Inr q \<Rightarrow>
      case change_p r p q of Inl e \<Rightarrow> Inl e | Inr r' \<Rightarrow>
      Inr (PyStr (nm @ ''`s number changed from '' @ phone_value p @ '' to '' @ new_phone),
           contacts\<lparr>data := py_setitem (data contacts) nm r'\<rparr>))"

definition phone_raw :: "AddressBook \<Rightarrow> string list \<Rightarrow> handler_result" where
  "phone_raw contacts args =
     (case py_nth args 0 of Inl e \<Rightarrow> Inl e | Inr nm \<Rightarrow>
      case py_getitem (data contacts) nm of Inl e \<Rightarrow> Inl e | Inr r \<Rightarrow>
      Inr (PyRec r, contacts))"

definition delete_phone_raw :: "AddressBook \<Rightarrow> string list \<Rightarrow> handler_result" where
  "delete_phone_raw contacts args =
     (case py_nth args 0 of Inl e \<Rightarrow> Inl e | Inr nm \<Rightarrow>
      case py_nth args 1 of Inl e \<Rightarrow> Inl e | Inr m_phone \<Rightarrow>
      case py_getitem (data contacts) nm of Inl e \<Rightarrow> Inl e | Inr r \<Rightarrow>
      case new_Phone m_phone of Inl e \<Rightarrow> Inl e | Inr p \<Rightarrow>
      case del_p r p of Inl e \<Rightarrow> Inl e | Inr r' \<Rightarrow>
      Inr (PyStr (nm @ ''`s phone '' @ m_phone @ '' was deleted''),
           contacts\<lparr>data := py_setitem (data contacts) nm r'\<rparr>))"

text \<open>The handlers as \<open>COMMANDS\<close> holds them, the decorated ones wrapped.\<close>

definition add :: "AddressBook \<Rightarrow> string list \<Rightarrow> handler_result" where
  "add = InputError add_raw"

definition add_data :: "AddressBook \<Rightarrow> string list \<Rightarrow> handler_result" where
  "add_data = InputError add_data_raw"

definition days_to_birthday :: "date \<Rightarrow> AddressBook \<Rightarrow> string list \<Rightarrow> handler_result" where
  "days_to_birthday today = InputError (days_to_birthday_raw today)"

definition change :: "AddressBook \<Rightarrow> string list \<Rightarrow> handler_result" where
  "change = InputError change_raw"

definition phone :: "AddressBook \<Rightarrow> string list \<Rightarrow> handler_result" where
  "phone = InputError phone_raw"

definition delete_phone :: "AddressBook \<Rightarrow> string list \<Rightarrow> handler_result" where
  "delete_phone = InputError delete_phone_raw"

text \<open>\<open>search.find_sub\<close>: the lower-cased query in the lower-cased name, the query
  in a phone's value, or the query in the birthday written \<open>%d.%m.%Y\<close>.\<close>

definition find_sub :: "string \<Rightarrow> Record \<Rightarrow> bool" where
  "find_sub subst r \<longleftrightarrow>
     py_in (py_lower subst) (py_lower (name_value (name r)))
     \<or> list_ex (\<lambda>p. py_in subst (phone_value p)) (phone_l r)
     \<or> (case birthday_value (birthday r) of None \<Rightarrow> False | Some d \<Rightarrow> py_in subst (strftime_dmY d))"

text \<open>\<open>search\<close> is not decorated: without an argument, \<open>args[0]\<close> raises
  \<open>IndexError\<close> out of the handler.\<close>

definition search :: "AddressBook \<Rightarrow> string list \<Rightarrow> handler_result" where
  "search contacts args =
     (case py_nth args 0 of Inl e \<Rightarrow> Inl e | Inr subst \<Rightarrow>
      Inr (PyStr (''List of users with '' @ [CHR 0x27] @ py_lower subst @ [CHR 0x27] @ '' in data:'' @ newline
                  @ concat (iterator contacts (Some (find_sub subst)))), contacts))"

definition show_all :: "AddressBook \<Rightarrow> string list \<Rightarrow> handler_result" where
  "show_all contacts args =
     (if data contacts = [] then Inr (PyStr ''Empty'', contacts)
      else Inr (PyStr (concat (iterator contacts None)), contacts))"

text \<open>No record holds the same phone twice.\<close>

definition phones_distinct :: "book_data \<Rightarrow> bool" where
  "phones_distinct d \<longleftrightarrow> list_all (\<lambda>(k, r). distinct (phone_l r)) d"

section \<open>The handlers keep the store invariant\<close>

lemma book_inv_lookup:
  "book_inv d \<Longrightarrow> map_of d k = Some r \<Longrightarrow> name_value (name r) = k \<and> record_ok r"
  by (auto simp: book_inv_def list_all_iff dest: map_of_SomeD)

lemma book_inv_setitem:
  "book_inv d \<Longrightarrow> map_of d k = Some r \<Longrightarrow> name r' = name r \<Longrightarrow> (record_ok r \<Longrightarrow> record_ok r') \<Longrightarrow>
     book_inv (py_setitem d k r')"
  using book_inv_lookup[of d k r] by (simp add: book_inv_update)

lemma record_ok_add_p:
  "record_ok r \<Longrightarrow> phone_canonical (phone_value p) \<Longrightarrow> record_ok (add_p r p)"
  by (simp add: record_ok_def add_p_def)

lemma record_ok_remove1:
  "record_ok r \<Longrightarrow> record_ok (r\<lparr>phone_l := remove1 p (phone_l r)\<rparr>)"
  using set_remove1_subset[of p "phone_l r"] by (auto simp: record_ok_def list_all_iff)

lemma record_ok_del_p:
  "record_ok r \<Longrightarrow> del_p r p = Inr r' \<Longrightarrow> record_ok r'"
  by (auto simp: del_p_Inr record_ok_remove1)

lemma record_ok_change_p:
  "record_ok r \<Longrightarrow> change_p r p q = Inr r' \<Longrightarrow> phone_canonical (phone_value q) \<Longrightarrow> record_ok r'"
  using set_remove1_subset[of p "phone_l r"]
  by (auto simp: change_p_Inr record_ok_def list_all_iff)

lemma new_Birthday_ok: "new_Birthday v = Inr bd \<Longrightarrow> birthday_ok bd"
  using new_Birthday_Inr[of v bd] by (auto simp: birthday_ok_def split: option.splits)

lemma InputError_Inr:
  "InputError f b args = Inr (v, b') \<Longrightarrow> f b args = Inr (v, b') \<or> b' = b"
  by (auto simp: InputError_def split: sum.splits exc.splits)

named_theorems handler_defs

declare add_raw_def [handler_defs] add_data_raw_def [handler_defs] change_raw_def [handler_defs]
  days_to_birthday_raw_def [handler_defs] phone_raw_def [handler_defs] delete_phone_raw_def [handler_defs]
  greet_def [handler_defs] search_def [handler_defs] show_all_def [handler_defs]

lemma add_raw_inv:
  assumes inv: "book_inv (data b)" and res: "add_raw b args = Inr (v, b')"
  shows "book_inv (data b') \<and> filename b' = filename b"
  using inv res
  by (auto simp: add_raw_def birthday_arg_def new_Name_def Let_def add_p_def record_ok_def new_Record_def
      split: sum.split_asm option.split_asm if_split_asm
      dest!: accepted_canonical new_Birthday_ok book_inv_lookup[OF inv] intro!: book_inv_update)

lemma add_data_raw_inv:
  assumes inv: "book_inv (data b)" and res: "add_data_raw b args = Inr (v, b')"
  shows "book_inv (data b') \<and> filename b' = filename b"
  using inv res
  by (auto simp: add_data_raw_def record_ok_def py_simps
      split: sum.split_asm option.split_asm
      dest!: new_Birthday_ok book_inv_lookup[OF inv] intro!: book_inv_update)

lemma change_raw_inv:
  assumes inv: "book_inv (data b)" and res: "change_raw b args = Inr (v, b')"
  shows "book_inv (data b') \<and> filename b' = filename b"
  using inv res
  by (auto simp: change_raw_def record_ok_def py_simps change_p_Inr list_all_remove1
      split: sum.split_asm option.split_asm
      dest!: accepted_canonical book_inv_lookup[OF inv] intro!: book_inv_update)

lemma delete_phone_raw_inv:
  assumes inv: "book_inv (data b)" and res: "delete_phone_raw b args = Inr (v, b')"
  shows "book_inv (data b') \<and> filename b' = filename b"
  using inv res
  by (auto simp: delete_phone_raw_def record_ok_def py_simps del_p_Inr list_all_remove1
      split: sum.split_asm option.split_asm
      dest!: book_inv_lookup[OF inv] intro!: book_inv_update)

lemma read_only_handlers:
  "days_to_birthday_raw t b args = Inr (v, b') \<Longrightarrow> b' = b"
  "phone_raw b args = Inr (v, b') \<Longrightarrow> b' = b"
  "greet b args = Inr (v, b') \<Longrightarrow> b' = b"
  "search b args = Inr (v, b') \<Longrightarrow> b' = b"
  "show_all b args = Inr (v, b') \<Longrightarrow> b' = b"
  by (auto simp: days_to_birthday_raw_def phone_raw_def greet_def search_def show_all_def
      split: sum.split_asm if_split_asm)

section \<open>Behaviour of the handlers\<close>

lemma phones_distinct_update:
  "phones_distinct d \<Longrightarrow> distinct (phone_l r) \<Longrightarrow> phones_distinct (AList.update k r d)"
  by (simp add: phones_distinct_def list_all_update)

lemma phones_distinct_lookup: "phones_distinct d \<Longrightarrow> map_of d k = Some r \<Longrightarrow> distinct (phone_l r)"
  by (auto simp: phones_distinct_def list_all_iff dest: map_of_SomeD)

text \<open>C24: \<open>add\<close> never gives a record a phone it already has: if no record holds a
  phone twice before, none does after.\<close>

theorem add_keeps_phones_distinct:
  assumes pd: "phones_distinct (data b)" and res: "add_raw b args = Inr (v, b')"
  shows "phones_distinct (data b')"
  using pd res
  by (auto simp: add_raw_def Let_def add_p_def new_Record_def
      split: sum.split_asm option.split_asm if_split_asm
      intro!: phones_distinct_update dest!: phones_distinct_lookup[OF pd])

theorem add_keeps_phones_distinct_witness:
  "phones_distinct (data (snd (projr (add_raw
     \<lparr>data = [(''Ann'', new_Record (Name ''Ann'') [Phone ''+380671234567''] (Birthday None))], filename = ''book.dat''\<rparr>
     [''Ann'', ''0971234567'']))))"
proof -
  have a: "add_raw \<lparr>data = [(''Ann'', new_Record (Name ''Ann'') [Phone ''+380671234567''] (Birthday None))], filename = ''book.dat''\<rparr>
     [''Ann'', ''0971234567''] = Inr (PyStr ''Add phone +380971234567 to user Ann'',
     \<lparr>data = [(''Ann'', new_Record (Name ''Ann'') [Phone ''+380671234567'', Phone ''+380971234567''] (Birthday None))], filename = ''book.dat''\<rparr>)"
    by code_simp
  have d: "phones_distinct (data \<lparr>data = [(''Ann'', new_Record (Name ''Ann'') [Phone ''+380671234567''] (Birthday None))], filename = ''book.dat''\<rparr>)"
    by (simp add: phones_distinct_def new_Record_def)
  show ?thesis using add_keeps_phones_distinct[OF d a] a by simp
qed

text \<open>C30: \<open>change\<close> does not check that the new phone is absent: changing a phone
  of a record to another phone the record already holds succeeds and leaves the
  record with the same phone twice, so no check of \<open>phones_distinct\<close> survives it.\<close>

theorem change_creates_duplicate:
  assumes r: "map_of (data b) n = Some r" and p: "new_Phone s1 = Inr p" and q: "new_Phone s2 = Inr q"
    and pin: "p \<in> set (phone_l r)" and qin: "q \<in> set (phone_l r)" and pq: "p \<noteq> q"
  shows "\<exists>v b'. change b [n, s1, s2] = Inr (v, b') \<and> \<not> phones_distinct (data b')"
proof -
  let ?r' = "r\<lparr>phone_l := remove1 p (phone_l r) @ [q]\<rparr>"
  have cp: "change_p r p q = Inr ?r'" using pin by (simp add: change_p_Inr)
  have res: "change b [n, s1, s2] = Inr (PyStr (n @ ''`s number changed from '' @ phone_value p @ '' to '' @ s2),
      b\<lparr>data := AList.update n ?r' (data b)\<rparr>)"
    by (simp add: change_def InputError_def change_raw_def py_nth_def py_getitem_def r p q cp)
  have "q \<in> set (remove1 p (phone_l r))" using qin pq by simp
  then have "\<not> distinct (phone_l ?r')" by simp
  moreover have "map_of (AList.update n ?r' (data b)) n = Some ?r'" by (simp add: update_conv')
  ultimately have "\<not> phones_distinct (AList.update n ?r' (data b))"
    using phones_distinct_lookup by blast
  then show ?thesis using res by auto
qed

theorem change_creates_duplicate_witness:
  "\<exists>v b'. change \<lparr>data = [(''Ann'', new_Record (Name ''Ann'') [Phone ''+380671234567'', Phone ''+380971234567''] (Birthday None))],
                    filename = ''book.dat''\<rparr> [''Ann'', ''0671234567'', ''0971234567'']
           = Inr (v, b') \<and> \<not> phones_distinct (data b')"
proof -
  have p: "new_Phone ''0671234567'' = Inr (Phone ''+380671234567'')" by code_simp
  have q: "new_Phone ''0971234567'' = Inr (Phone ''+380971234567'')" by code_simp
  show ?thesis
    by (rule change_creates_duplicate[where r = "new_Record (Name ''Ann'') [Phone ''+380671234567'', Phone ''+380971234567''] (Birthday None)", OF _ p q])
      (simp_all add: new_Record_def)
qed


lemma new_Phone_value_cases:
  "new_Phone s = Inr p \<Longrightarrow>
     phone_value p = ''+'' @ py_removeprefix ''+'' s \<or> phone_value p = ''+38'' @ py_removeprefix ''+'' s"
  by (auto simp: new_Phone_eq Let_def split: if_splits)

lemma new_Phone_digits_in_value: "new_Phone s = Inr p \<Longrightarrow> py_in (py_removeprefix ''+'' s) (phone_value p)"
  using new_Phone_value_cases[of s p] by (metis sublist_append_leftI)

text \<open>C22: \<open>search\<close> finds a contact by any number it holds: the digits of a
  number \<open>Phone\<close> accepts (without the \<open>+\<close> the setter strips) occur in the value
  stored for it, so \<open>find_sub\<close> selects every record holding that phone, however
  the number was typed when it was added.\<close>

theorem search_finds_phone:
  assumes "new_Phone s = Inr p" and "p \<in> set (phone_l r)"
  shows "find_sub (py_removeprefix ''+'' s) r"
  using new_Phone_digits_in_value[OF assms(1)] assms(2)
  unfolding find_sub_def list_ex_iff by blast

theorem search_finds_phone_witness:
  "find_sub ''0671234567'' (new_Record (Name ''Ann'') [Phone ''+380971234567'', Phone ''+380671234567''] (Birthday None))"
proof -
  have p: "new_Phone ''+0671234567'' = Inr (Phone ''+380671234567'')" by code_simp
  have m: "Phone ''+380671234567'' \<in> set (phone_l (new_Record (Name ''Ann'') [Phone ''+380971234567'', Phone ''+380671234567''] (Birthday None)))"
    by (simp add: new_Record_def)
  have "py_removeprefix ''+'' ''+0671234567'' = ''0671234567''" by code_simp
  then show ?thesis using search_finds_phone[OF p m] by simp
qed

text \<open>The typed form itself need not be found: \<open>Phone\<close> accepts a national number
  after a \<open>+\<close>, but that string does not occur in the stored value.\<close>

lemma search_plus_national_misses:
  "new_Phone ''+0671234567'' = Inr (Phone ''+380671234567'')
   \<and> \<not> find_sub ''+0671234567'' (new_Record (Name ''Ann'') [Phone ''+380671234567''] (Birthday None))"
  by code_simp

end
