(* ===== verification/Session.thy ===== *)
theory Session
  imports Handlers
begin

text \<open>
  \<open>main\<close> of \<open>src/main.py\<close>: the dictionary \<open>COMMANDS\<close>, the dispatch of an input
  line to the first key that occurs in the lower-cased line, and the loop. A session
  is the book, the file system, the lines printed so far and whether the program is
  still running, has exited through \<open>goodbye\<close>, or has died of an uncaught
  exception. One iteration of \<open>while True\<close> is \<open>main_step\<close> on one input line;
  \<open>session_step\<close> is the step relation of the loop, and \<open>reachable\<close> the
  sessions a run started on a given file system can reach.
\<close>

datatype command =
  CmdGreet | CmdAdd | CmdChange | CmdPhone | CmdShowAll | CmdGoodbye | CmdDelete | CmdAddData
  | CmdDays | CmdSearch

text \<open>\<open>COMMANDS\<close>, in the insertion order of the dictionary literal.\<close>

definition COMMANDS :: "(string \<times> command) list" where
  "COMMANDS =
     [(''hello'', CmdGreet), (''add'', CmdAdd), (''change'', CmdChange), (''phone'', CmdPhone),
      (''show all'', CmdShowAll), (''good bye'', CmdGoodbye), (''exit'', CmdGoodbye),
      (''close'', CmdGoodbye), (''delete'', CmdDelete), (''birthday'', CmdAddData),
      (''days'', CmdDays), (''search'', CmdSearch)]"

text \<open>The \<open>for k, v in COMMANDS.items()\<close> loop: the first key \<open>k in
  user_command.lower()\<close>.\<close>

fun find_command :: "(string \<times> command) list \<Rightarrow> string \<Rightarrow> (string \<times> command) option" where
  "find_command [] line = None"
| "find_command ((k, c) # cs) line =
     (if py_in k (py_lower line) then Some (k, c) else find_command cs line)"

text \<open>\<open>goodbye\<close>: save the book, print \<open>Good bye!\<close>, return \<open>None\<close>.\<close>

definition goodbye :: "AddressBook \<Rightarrow> file_system \<Rightarrow> string list \<Rightarrow> py_value \<times> file_system \<times> string list" where
  "goodbye contacts fs args = (PyNone, save contacts fs, [''Good bye!''])"

type_synonym call_result = "exc + (py_value \<times> AddressBook \<times> file_system \<times> string list)"

definition lift_result :: "file_system \<Rightarrow> handler_result \<Rightarrow> call_result" where
  "lift_result fs r = (case r of Inl e \<Rightarrow> Inl e | Inr (v, b') \<Rightarrow> Inr (v, b', fs, []))"

text \<open>\<open>COMMANDS[k](contacts_list, *args)\<close>: the returned value, the book, the file
  system and what the handler printed.\<close>

definition call_command :: "date \<Rightarrow> command \<Rightarrow> AddressBook \<Rightarrow> file_system \<Rightarrow> string list \<Rightarrow> call_result" where
  "call_command today c contacts fs args =
     (case c of
        CmdGreet \<Rightarrow> lift_result fs (greet contacts args)
      | CmdAdd \<Rightarrow> lift_result fs (add contacts args)
      | CmdChange \<Rightarrow> lift_result fs (change contacts args)
      | CmdPhone \<Rightarrow> lift_result fs (phone contacts args)
      | CmdShowAll \<Rightarrow> lift_result fs (show_all contacts args)
      | CmdGoodbye \<Rightarrow> (case goodbye contacts fs args of (v, fs', printed) \<Rightarrow> Inr (v, contacts, fs', printed))
      | CmdDelete \<Rightarrow> lift_result fs (delete_phone contacts args)
      | CmdAddData \<Rightarrow> lift_result fs (add_data contacts args)
      | CmdDays \<Rightarrow> lift_result fs (days_to_birthday today contacts args)
      | CmdSearch \<Rightarrow> lift_result fs (search contacts args))"

datatype status = Running | Exited | Crashed exc

record session =
  book :: AddressBook
  files :: file_system
  out :: "string list"
  status :: status

text \<open>\<open>contacts_list = AddressBook(filename='book.dat')\<close>; an exception of
  \<open>pickle.load\<close> ends the program before the loop.\<close>

definition book_file :: string where
  "book_file = ''book.dat''"

definition start_session :: "file_system \<Rightarrow> session" where
  "start_session fs =
     (case new_AddressBook fs book_file of
        Inl e \<Rightarrow> \<lparr>book = \<lparr>data = [], filename = book_file\<rparr>, files = fs, out = [], status = Crashed e\<rparr>
      | Inr b \<Rightarrow> \<lparr>book = b, files = fs, out = [], status = Running\<rparr>)"

text \<open>One iteration of the loop on the line \<open>user_command\<close>: the arguments are the
  words of the line after its first \<open>len(k)\<close> characters; a \<open>None\<close> result ends
  the program (\<open>exit()\<close>), any other is printed; an uncaught exception ends it.\<close>

definition main_step :: "date \<Rightarrow> string \<Rightarrow> session \<Rightarrow> session" where
  "main_step today user_command s =
     (case find_command COMMANDS user_command of
        None \<Rightarrow> s\<lparr>out := out s @ [''Unknown command! Enter again!'']\<rparr>
      | Some (k, c) \<Rightarrow>
          (case call_command today c (book s) (files s) (py_split (drop (length k) user_command)) of
             Inl e \<Rightarrow> s\<lparr>status := Crashed e\<rparr>
           | Inr (result, b', fs', printed) \<Rightarrow>
               if result = PyNone
               then s\<lparr>book := b', files := fs', out := out s @ printed, status := Exited\<rparr>
               else s\<lparr>book := b', files := fs', out := out s @ printed @ [py_str result]\<rparr>))"

text \<open>The loop over a finite sequence of input lines, each with the day it is read on.\<close>

fun run_lines :: "(date \<times> string) list \<Rightarrow> session \<Rightarrow> session" where
  "run_lines [] s = s"
| "run_lines ((t, l) # ls) s = (if status s = Running then run_lines ls (main_step t l s) else s)"

inductive session_step :: "session \<Rightarrow> session \<Rightarrow> bool" where
  loop: "status s = Running \<Longrightarrow> session_step s (main_step today line s)"

inductive reachable :: "file_system \<Rightarrow> session \<Rightarrow> bool" for fs0 :: file_system where
  start: "reachable fs0 (start_session fs0)"
| step: "reachable fs0 s \<Longrightarrow> session_step s s' \<Longrightarrow> reachable fs0 s'"

inductive_cases session_stepE: "session_step s s'"

text \<open>The session invariant: the book satisfies the store invariant and is the one
  named \<open>book.dat\<close>, and the file holds a book that does.\<close>

definition file_ok :: "file_content option \<Rightarrow> bool" where
  "file_ok c = (case c of Some (Pickled d) \<Rightarrow> book_inv d | _ \<Rightarrow> True)"

definition session_inv :: "session \<Rightarrow> bool" where
  "session_inv s \<longleftrightarrow>
     book_inv (data (book s)) \<and> filename (book s) = book_file \<and> file_ok (files s book_file)"

section \<open>Calls\<close>

lemma wrapped_inv:
  assumes "\<And>v b'. f b args = Inr (v, b') \<Longrightarrow> book_inv (data b') \<and> filename b' = filename b"
    and "book_inv (data b)" and "InputError f b args = Inr (v, b')"
  shows "book_inv (data b') \<and> filename b' = filename b"
  using InputError_Inr[OF assms(3)] assms(1,2) by blast

lemma InputError_not_None: "InputError f b args = Inr (v, b') \<Longrightarrow> f b args = Inr (v, b') \<or> v \<noteq> PyNone"
  by (auto simp: InputError_def split: sum.splits exc.splits)

lemma raw_handlers_not_None:
  "add_raw b args \<noteq> Inr (PyNone, b')" "add_data_raw b args \<noteq> Inr (PyNone, b')"
  "change_raw b args \<noteq> Inr (PyNone, b')" "phone_raw b args \<noteq> Inr (PyNone, b')"
  "delete_phone_raw b args \<noteq> Inr (PyNone, b')" "days_to_birthday_raw t b args \<noteq> Inr (PyNone, b')"
  "greet b args \<noteq> Inr (PyNone, b')" "search b args \<noteq> Inr (PyNone, b')" "show_all b args \<noteq> Inr (PyNone, b')"
  by (auto simp: handler_defs Let_def
      split: sum.splits option.splits if_splits)

lemma raw_handlers_filename:
  "add_raw b args = Inr (v, b') \<Longrightarrow> filename b' = filename b"
  "add_data_raw b args = Inr (v, b') \<Longrightarrow> filename b' = filename b"
  "change_raw b args = Inr (v, b') \<Longrightarrow> filename b' = filename b"
  "phone_raw b args = Inr (v, b') \<Longrightarrow> filename b' = filename b"
  "delete_phone_raw b args = Inr (v, b') \<Longrightarrow> filename b' = filename b"
  "days_to_birthday_raw t b args = Inr (v, b') \<Longrightarrow> filename b' = filename b"
  "greet b args = Inr (v, b') \<Longrightarrow> filename b' = filename b"
  "search b args = Inr (v, b') \<Longrightarrow> filename b' = filename b"
  "show_all b args = Inr (v, b') \<Longrightarrow> filename b' = filename b"
  by (auto simp: handler_defs Let_def
      split: sum.split_asm option.split_asm if_split_asm)

lemma InputError_filename:
  "(\<And>v b'. f b args = Inr (v, b') \<Longrightarrow> filename b' = filename b) \<Longrightarrow>
     InputError f b args = Inr (v, b') \<Longrightarrow> filename b' = filename b"
  using InputError_Inr by blast

lemma call_command_filename:
  "call_command t c b fs args = Inr (v, b', fs', pr) \<Longrightarrow> filename b' = filename b"
  by (cases c) (auto simp: call_command_def lift_result_def goodbye_def add_def add_data_def change_def
      phone_def delete_phone_def days_to_birthday_def
      split: sum.splits elim!: InputError_filename[rotated] dest: raw_handlers_filename)

lemma call_command_None:
  "call_command t c b fs args = Inr (PyNone, b', fs', pr) \<Longrightarrow> c = CmdGoodbye \<and> b' = b \<and> fs' = save b fs"
  by (cases c) (auto simp: call_command_def lift_result_def goodbye_def add_def add_data_def change_def
      phone_def delete_phone_def days_to_birthday_def raw_handlers_not_None
      split: sum.splits dest!: InputError_not_None)

lemma call_command_files:
  "call_command t c b fs args = Inr (v, b', fs', pr) \<Longrightarrow> v \<noteq> PyNone \<Longrightarrow> fs' = fs"
  by (cases c) (auto simp: call_command_def lift_result_def goodbye_def split: sum.splits)

lemma call_command_inv:
  assumes "book_inv (data b)" "call_command t c b fs args = Inr (v, b', fs', pr)"
  shows "book_inv (data b') \<and> filename b' = filename b"
  using assms
  by (cases c) (auto simp: call_command_def lift_result_def goodbye_def add_def add_data_def change_def
      phone_def delete_phone_def days_to_birthday_def
      split: sum.splits
      elim!: wrapped_inv[rotated 2]
      dest: add_raw_inv add_data_raw_inv change_raw_inv delete_phone_raw_inv read_only_handlers)

section \<open>The loop\<close>

lemma main_step_cases:
  obtains (unknown) "main_step t l s = s\<lparr>out := out s @ [''Unknown command! Enter again!'']\<rparr>"
  | (crash) e where "main_step t l s = s\<lparr>status := Crashed e\<rparr>"
  | (exit) c args pr where "call_command t c (book s) (files s) args = Inr (PyNone, book s, save (book s) (files s), pr)"
      "main_step t l s = s\<lparr>files := save (book s) (files s), out := out s @ pr, status := Exited\<rparr>"
  | (reply) c args v b' pr where "call_command t c (book s) (files s) args = Inr (v, b', files s, pr)" "v \<noteq> PyNone"
      "main_step t l s = s\<lparr>book := b', out := out s @ pr @ [py_str v]\<rparr>"
proof -
  consider (n) "find_command COMMANDS l = None" | (s) k c where "find_command COMMANDS l = Some (k, c)"
    by (cases "find_command COMMANDS l") auto
  then show ?thesis
  proof cases
    case n
    then show ?thesis by (intro that(1)) (simp add: main_step_def)
  next
    case (s k c)
    let ?args = "py_split (drop (length k) l)"
    consider (e) e where "call_command t c (book s) (files s) ?args = Inl e"
      | (r) v b' fs' pr where "call_command t c (book s) (files s) ?args = Inr (v, b', fs', pr)"
      by (metis sumE prod_cases4)
    then show ?thesis
    proof cases
      case (e e)
      then show ?thesis using s by (intro that(2)[of e]) (simp add: main_step_def)
    next
      case (r v b' fs' pr)
      show ?thesis
      proof (cases "v = PyNone")
        case True
        with r have "c = CmdGoodbye \<and> b' = book s \<and> fs' = save (book s) (files s)"
          by (simp add: call_command_None)
        with r s True show ?thesis by (intro that(3)) (auto simp: main_step_def)
      next
        case False
        with r have "fs' = files s" by (simp add: call_command_files)
        with r s False show ?thesis by (intro that(4)) (auto simp: main_step_def)
      qed
    qed
  qed
qed

lemma main_step_filename: "filename (book (main_step t l s)) = filename (book s)"
  by (cases rule: main_step_cases[of t l s]) (auto dest: call_command_filename)

lemma main_step_inv:
  assumes "session_inv s" shows "session_inv (main_step t l s)"
  using assms
proof (cases rule: main_step_cases[of t l s])
  case (reply c args v b' pr)
  then show ?thesis using assms call_command_inv[OF _ reply(1)] by (simp add: session_inv_def)
qed (auto simp: session_inv_def save_def file_ok_def)

lemma start_session_inv: "file_ok (fs book_file) \<Longrightarrow> session_inv (start_session fs)"
  by (auto simp: start_session_def new_AddressBook_def session_inv_def file_ok_def
      split: option.splits file_content.splits)

lemma reachable_filename: "reachable fs0 s \<Longrightarrow> filename (book s) = book_file"
proof (induction rule: reachable.induct)
  case start
  then show ?case
    by (auto simp: start_session_def new_AddressBook_def split: sum.splits option.splits file_content.splits)
next
  case (step s s')
  then show ?case by (auto elim!: session_stepE simp: main_step_filename)
qed

lemma reachable_exited_file:
  "reachable fs0 s \<Longrightarrow> status s = Exited \<Longrightarrow> files s book_file = Some (Pickled (data (book s)))"
proof (induction rule: reachable.induct)
  case start
  then show ?case by (auto simp: start_session_def split: sum.splits)
next
  case (step s s')
  from step.hyps(2) obtain t l where run: "status s = Running" and s': "s' = main_step t l s"
    by (auto elim: session_stepE)
  have fn: "filename (book s) = book_file" using step.hyps(1) by (rule reachable_filename)
  show ?case using step.prems run fn unfolding s'
    by (cases rule: main_step_cases[of t l s]) (auto simp: save_def)
qed

lemma find_command_birthday_Maddie:
  "find_command COMMANDS ''birthday Maddie 01.01.2000'' = Some (''add'', CmdAdd)"
  by code_simp

lemma find_command_search: "find_command COMMANDS ''search'' = Some (''search'', CmdSearch)"
  by code_simp

section \<open>Properties of runs\<close>

text \<open>C1: every session reachable from a start on a file that holds a well-formed book
  (or no file) keeps the session invariant: distinct keys, each its record's name,
  canonical phones, real birthdays, and a file that holds such a book.\<close>

theorem reachable_session_inv:
  assumes "file_ok (fs0 book_file)" and "reachable fs0 s"
  shows "session_inv s"
  using assms(2)
proof (induction rule: reachable.induct)
  case start
  then show ?case using assms(1) by (rule start_session_inv)
next
  case (step s s')
  then show ?case by (auto elim!: session_stepE intro: main_step_inv)
qed

theorem reachable_session_inv_witness:
  "session_inv (main_step \<lparr>year = 2024, month = 5, day = 1\<rparr> ''add Ann 0671234567'' (start_session Map.empty))"
proof -
  have "reachable Map.empty (main_step \<lparr>year = 2024, month = 5, day = 1\<rparr> ''add Ann 0671234567'' (start_session Map.empty))"
    by (rule reachable.step[OF reachable.start session_step.loop])
       (simp add: start_session_def new_AddressBook_def)
  then show ?thesis by (rule reachable_session_inv[rotated]) (simp add: file_ok_def)
qed

text \<open>C8: the book file is written only when the program exits through
  \<open>goodbye\<close>: in every reachable session that has not exited, the file system is
  the one the run started on, so a run that dies of an uncaught exception loses every
  change it made.\<close>

theorem file_written_only_on_exit:
  "reachable fs0 s \<Longrightarrow> status s \<noteq> Exited \<Longrightarrow> files s = fs0"
proof (induction rule: reachable.induct)
  case start
  then show ?case by (auto simp: start_session_def split: sum.splits)
next
  case (step s s')
  from step.hyps(2) obtain t l where run: "status s = Running" and s': "s' = main_step t l s"
    by (auto elim: session_stepE)
  show ?case using step.IH step.prems run unfolding s'
    by (cases rule: main_step_cases[of t l s]) auto
qed

theorem file_written_only_on_exit_witness:
  "files (main_step \<lparr>year = 2024, month = 5, day = 1\<rparr> ''search'' (start_session Map.empty)) = Map.empty"
proof -
  have r: "reachable Map.empty (main_step \<lparr>year = 2024, month = 5, day = 1\<rparr> ''search'' (start_session Map.empty))"
    by (rule reachable.step[OF reachable.start session_step.loop])
       (simp add: start_session_def new_AddressBook_def)
  have c: "status (main_step \<lparr>year = 2024, month = 5, day = 1\<rparr> ''search'' (start_session Map.empty)) \<noteq> Exited"
    by code_simp
  show ?thesis by (rule file_written_only_on_exit[OF r c])
qed

text \<open>C7: what \<open>goodbye\<close> saves is what the next run loads: when a reachable
  session has exited, a new session started on its file system runs with the same
  book.\<close>

theorem exit_then_restart:
  "reachable fs0 s \<Longrightarrow> status s = Exited \<Longrightarrow>
     start_session (files s) = \<lparr>book = book s, files = files s, out = [], status = Running\<rparr>"
  using reachable_exited_file[of fs0 s] reachable_filename[of fs0 s]
  by (simp add: start_session_def new_AddressBook_def)

theorem exit_then_restart_witness:
  "start_session (files (main_step \<lparr>year = 2024, month = 5, day = 1\<rparr> ''exit'' (start_session Map.empty)))
   = \<lparr>book = book (main_step \<lparr>year = 2024, month = 5, day = 1\<rparr> ''exit'' (start_session Map.empty)),
      files = files (main_step \<lparr>year = 2024, month = 5, day = 1\<rparr> ''exit'' (start_session Map.empty)),
      out = [], status = Running\<rparr>"
proof -
  have r: "reachable Map.empty (main_step \<lparr>year = 2024, month = 5, day = 1\<rparr> ''exit'' (start_session Map.empty))"
    by (rule reachable.step[OF reachable.start session_step.loop])
       (simp add: start_session_def new_AddressBook_def)
  have e: "status (main_step \<lparr>year = 2024, month = 5, day = 1\<rparr> ''exit'' (start_session Map.empty)) = Exited"
    by code_simp
  show ?thesis by (rule exit_then_restart[OF r e])
qed

section \<open>Dispatch\<close>

text \<open>C28: dispatch runs the first key of the command table that occurs anywhere in the
  lower-cased line, not the key the line starts with: \<open>find_command\<close> returns
  \<open>(k, c)\<close> exactly when \<open>k\<close> occurs in the line and no key before it does. So
  \<open>birthday Maddie 01.01.2000\<close>, which contains \<open>add\<close> (in \<open>Maddie\<close>), runs
  \<open>add\<close>.\<close>

theorem dispatch_first_key_in_line:
  "find_command cs l = Some (k, c) \<longleftrightarrow>
     (\<exists>pre post. cs = pre @ (k, c) # post \<and> py_in k (py_lower l)
        \<and> list_all (\<lambda>(k', c'). \<not> py_in k' (py_lower l)) pre)"
proof (induction cs)
  case Nil
  then show ?case by simp
next
  case (Cons kc cs)
  obtain k0 c0 where kc: "kc = (k0, c0)" by (cases kc)
  show ?case
  proof (cases "py_in k0 (py_lower l)")
    case True
    then show ?thesis using kc by (auto simp: Cons_eq_append_conv intro: exI[of _ "[]"])
  next
    case False
    let ?Q = "\<lambda>(k', c'). \<not> py_in k' (py_lower l)"
    have "(\<exists>pre post. kc # cs = pre @ (k, c) # post \<and> py_in k (py_lower l) \<and> list_all ?Q pre)
          \<longleftrightarrow> (\<exists>pre post. cs = pre @ (k, c) # post \<and> py_in k (py_lower l) \<and> list_all ?Q pre)"
    proof
      assume "\<exists>pre post. kc # cs = pre @ (k, c) # post \<and> py_in k (py_lower l) \<and> list_all ?Q pre"
      then obtain pre post where eq: "kc # cs = pre @ (k, c) # post" and k: "py_in k (py_lower l)"
        and pre: "list_all ?Q pre" by blast
      show "\<exists>pre post. cs = pre @ (k, c) # post \<and> py_in k (py_lower l) \<and> list_all ?Q pre"
      proof (cases pre)
        case Nil
        then show ?thesis using eq k False kc by simp
      next
        case (Cons x pre')
        then show ?thesis using eq k pre by auto
      qed
    next
      assume "\<exists>pre post. cs = pre @ (k, c) # post \<and> py_in k (py_lower l) \<and> list_all ?Q pre"
      then obtain pre post where "cs = pre @ (k, c) # post" "py_in k (py_lower l)" "list_all ?Q pre"
        by blast
      then show "\<exists>pre post. kc # cs = pre @ (k, c) # post \<and> py_in k (py_lower l) \<and> list_all ?Q pre"
        using False kc by (intro exI[of _ "kc # pre"] exI[of _ post]) simp
    qed
    then show ?thesis using kc False Cons.IH by simp
  qed
qed

theorem dispatch_first_key_in_line_witness:
  "\<exists>pre post. COMMANDS = pre @ (''add'', CmdAdd) # post \<and> py_in ''add'' (py_lower ''birthday Maddie 01.01.2000'')
     \<and> list_all (\<lambda>(k', c'). \<not> py_in k' (py_lower ''birthday Maddie 01.01.2000'')) pre"
  using dispatch_first_key_in_line[THEN iffD1, OF find_command_birthday_Maddie] .

text \<open>C29: \<open>search\<close> is the one command not decorated by \<open>InputError\<close>: in a
  running session, a line dispatched to a command with no argument words ends the
  program with an uncaught exception exactly when the command is \<open>search\<close>, and the
  exception is \<open>IndexError\<close>; every other command answers, or exits.\<close>

theorem search_without_argument_crashes:
  assumes run: "status s = Running" and fc: "find_command COMMANDS l = Some (k, c)"
    and noargs: "py_split (drop (length k) l) = []"
  shows "status (main_step t l s) = Crashed e \<longleftrightarrow> c = CmdSearch \<and> e = IndexError"
  using run by (cases c) (simp_all add: main_step_def fc noargs call_command_def lift_result_def
      greet_def add_def change_def phone_def show_all_def goodbye_def delete_phone_def add_data_def
      days_to_birthday_def search_def InputError_def add_raw_def change_raw_def phone_raw_def
      delete_phone_raw_def add_data_raw_def days_to_birthday_raw_def py_nth_def, blast)

theorem search_without_argument_crashes_witness:
  "status (main_step \<lparr>year = 2024, month = 5, day = 1\<rparr> ''search'' (start_session Map.empty)) = Crashed IndexError"
proof -
  have run: "status (start_session Map.empty) = Running"
    by (simp add: start_session_def new_AddressBook_def)
  have "py_split (drop (length ''search'') ''search'') = []" by (simp add: py_split_def)
  then show ?thesis using search_without_argument_crashes[OF run find_command_search] by simp
qed

end
