(* ===== verification/Store_Spec.thy ===== *)
theory Store_Spec
  imports Session
begin

text \<open>
  The contact store seen abstractly, as the spec describes it: a finite map from a
  name to the contact's set of phones and its birthday. \<open>contacts_abs\<close> reads the
  book this way (the phone list as a set, the dictionary as \<open>map_of\<close>). The
  handlers that change the book are shown to be map updates at the key of their first
  argument: \<open>add\<close> inserts a phone or a contact, \<open>delete_phone\<close> and \<open>change\<close>
  remove (and insert) a phone, \<open>add_data\<close> replaces the birthday, and every other
  handler leaves the map as it is. The order of the keys, which the paging follows,
  changes only by a new contact going last.
\<close>

type_synonym contact = "Phone set \<times> Birthday"

definition contact_of :: "Record \<Rightarrow> contact" where
  "contact_of r = (set (phone_l r), birthday r)"

definition contacts_abs :: "AddressBook \<Rightarrow> string \<rightharpoonup> contact" where
  "contacts_abs b = (\<lambda>n. map_option contact_of (map_of (data b) n))"

section \<open>Lookups and updates\<close>

lemma contacts_abs_update [simp]:
  "contacts_abs (b\<lparr>data := py_setitem (data b) k r\<rparr>) = (contacts_abs b)(k \<mapsto> contact_of r)"
  by (simp add: contacts_abs_def update_conv' fun_eq_iff)

lemma contacts_abs_Some:
  "map_of (data b) k = Some r \<Longrightarrow> contacts_abs b k = Some (contact_of r)"
  by (simp add: contacts_abs_def)

lemma contacts_abs_None:
  "map_of (data b) k = None \<Longrightarrow> contacts_abs b k = None"
  by (simp add: contacts_abs_def)

lemma fun_upd_same_value: "f x = Some y \<Longrightarrow> f(x \<mapsto> y) = f"
  by (simp add: fun_eq_iff)

lemma lookup_distinct_abs:
  "phones_distinct (data b) \<Longrightarrow> map_of (data b) k = Some r \<Longrightarrow>
     contacts_abs b k = Some (set (phone_l r), birthday r) \<and> distinct (phone_l r)"
  by (simp add: contacts_abs_def contact_of_def phones_distinct_lookup)

lemma keys_update_existing:
  "map_of d k = Some r \<Longrightarrow> map fst (AList.update k r' d) = map fst d"
  by (simp add: update_keys) (metis map_of_eq_None_iff option.simps(3))

lemma add_raw_keys:
  "add_raw b args = Inr (v, b') \<Longrightarrow>
     map fst (data b') = map fst (data b) \<or> map fst (data b') = map fst (data b) @ [args ! 0]"
  by (auto simp: add_raw_def Let_def new_Name_def py_simps update_keys
      split: sum.split_asm option.split_asm if_split_asm)

lemma modify_raw_keys:
  "add_data_raw b args = Inr (v, b') \<Longrightarrow> map fst (data b') = map fst (data b)"
  "change_raw b args = Inr (v, b') \<Longrightarrow> map fst (data b') = map fst (data b)"
  "delete_phone_raw b args = Inr (v, b') \<Longrightarrow> map fst (data b') = map fst (data b)"
  by (auto simp: add_data_raw_def change_raw_def delete_phone_raw_def py_simps keys_update_existing
      split: sum.split_asm)

lemma wrapped_keys:
  "add b args = Inr (v, b') \<Longrightarrow>
     map fst (data b') = map fst (data b) \<or> map fst (data b') = map fst (data b) @ [args ! 0]"
  "add_data b args = Inr (v, b') \<Longrightarrow> map fst (data b') = map fst (data b)"
  "change b args = Inr (v, b') \<Longrightarrow> map fst (data b') = map fst (data b)"
  "delete_phone b args = Inr (v, b') \<Longrightarrow> map fst (data b') = map fst (data b)"
  "phone b args = Inr (v, b') \<Longrightarrow> b' = b"
  "days_to_birthday t b args = Inr (v, b') \<Longrightarrow> b' = b"
  by (auto simp: add_def add_data_def change_def delete_phone_def phone_def days_to_birthday_def
      dest!: InputError_Inr dest: add_raw_keys modify_raw_keys read_only_handlers)

lemmas abs_facts = contacts_abs_Some contacts_abs_None contact_of_def

section \<open>The handlers refine map operations\<close>

text \<open>C3: \<open>add name phone [birthday]\<close> is, on the abstract map, the insertion of the
  phone into the name's contact, or, for a new name, a new contact holding just that
  phone and the birthday argument.\<close>

theorem add_refines:
  assumes res: "add_raw b args = Inr (v, b')" and p: "new_Phone (args ! 1) = Inr p"
  shows "case contacts_abs b (args ! 0) of
           None \<Rightarrow> \<exists>bd. birthday_arg args = Inr bd \<and> contacts_abs b' = (contacts_abs b)(args ! 0 \<mapsto> ({p}, bd))
         | Some (ps, bd) \<Rightarrow> contacts_abs b' = (contacts_abs b)(args ! 0 \<mapsto> (insert p ps, bd))"
  using res p
  by (auto simp: add_raw_def new_Name_def Let_def py_nth_def add_p_def new_Record_def abs_facts
      insert_absorb fun_upd_same_value split: sum.split_asm option.split_asm if_split_asm)

theorem add_refines_witness:
  "case contacts_abs \<lparr>data = [(''Ann'', new_Record (Name ''Ann'') [Phone ''+380671234567''] (Birthday None))], filename = ''book.dat''\<rparr> ([''Ann'', ''0971234567''] ! 0) of
           None \<Rightarrow> \<exists>bd. birthday_arg [''Ann'', ''0971234567''] = Inr bd \<and> contacts_abs \<lparr>data = [(''Ann'', new_Record (Name ''Ann'') [Phone ''+380671234567'', Phone ''+380971234567''] (Birthday None))], filename = ''book.dat''\<rparr> = (contacts_abs \<lparr>data = [(''Ann'', new_Record (Name ''Ann'') [Phone ''+380671234567''] (Birthday None))], filename = ''book.dat''\<rparr>)([''Ann'', ''0971234567''] ! 0 \<mapsto> ({Phone ''+380971234567''}, bd))
         | Some (ps, bd) \<Rightarrow> contacts_abs \<lparr>data = [(''Ann'', new_Record (Name ''Ann'') [Phone ''+380671234567'', Phone ''+380971234567''] (Birthday None))], filename = ''book.dat''\<rparr> = (contacts_abs \<lparr>data = [(''Ann'', new_Record (Name ''Ann'') [Phone ''+380671234567''] (Birthday None))], filename = ''book.dat''\<rparr>)([''Ann'', ''0971234567''] ! 0 \<mapsto> (insert (Phone ''+380971234567'') ps, bd))"
proof -
  have res: "add_raw \<lparr>data = [(''Ann'', new_Record (Name ''Ann'') [Phone ''+380671234567''] (Birthday None))], filename = ''book.dat''\<rparr> [''Ann'', ''0971234567''] = Inr (PyStr ''Add phone +380971234567 to user Ann'', \<lparr>data = [(''Ann'', new_Record (Name ''Ann'') [Phone ''+380671234567'', Phone ''+380971234567''] (Birthday None))], filename = ''book.dat''\<rparr>)"
    by code_simp
  have p: "new_Phone ([''Ann'', ''0971234567''] ! 1) = Inr (Phone ''+380971234567'')"
    by code_simp
  show ?thesis by (rule add_refines[OF res p])
qed

text \<open>C9: when no contact holds a phone twice, \<open>delete name phone\<close> is, on the
  abstract map, the removal of the phone from the name's contact, which held it.\<close>

theorem delete_phone_refines:
  assumes pd: "phones_distinct (data b)" and res: "delete_phone_raw b args = Inr (v, b')"
    and p: "new_Phone (args ! 1) = Inr p"
  shows "\<exists>ps bd. contacts_abs b (args ! 0) = Some (ps, bd) \<and> p \<in> ps
           \<and> contacts_abs b' = (contacts_abs b)(args ! 0 \<mapsto> (ps - {p}, bd))"
  using res p
  using pd by (auto simp: delete_phone_raw_def py_simps del_p_Inr contact_of_def
      split: sum.split_asm dest!: lookup_distinct_abs[OF pd])

theorem delete_phone_refines_witness:
  "\<exists>ps bd. contacts_abs \<lparr>data = [(''Ann'', new_Record (Name ''Ann'') [Phone ''+380671234567'', Phone ''+380971234567''] (Birthday None))], filename = ''book.dat''\<rparr> ([''Ann'', ''0671234567''] ! 0) = Some (ps, bd) \<and> Phone ''+380671234567'' \<in> ps
           \<and> contacts_abs \<lparr>data = [(''Ann'', new_Record (Name ''Ann'') [Phone ''+380971234567''] (Birthday None))], filename = ''book.dat''\<rparr> = (contacts_abs \<lparr>data = [(''Ann'', new_Record (Name ''Ann'') [Phone ''+380671234567'', Phone ''+380971234567''] (Birthday None))], filename = ''book.dat''\<rparr>)([''Ann'', ''0671234567''] ! 0 \<mapsto> (ps - {Phone ''+380671234567''}, bd))"
proof -
  have pd: "phones_distinct (data \<lparr>data = [(''Ann'', new_Record (Name ''Ann'') [Phone ''+380671234567'', Phone ''+380971234567''] (Birthday None))], filename = ''book.dat''\<rparr>)"
    by code_simp
  have res: "delete_phone_raw \<lparr>data = [(''Ann'', new_Record (Name ''Ann'') [Phone ''+380671234567'', Phone ''+380971234567''] (Birthday None))], filename = ''book.dat''\<rparr> [''Ann'', ''0671234567''] = Inr (PyStr ''Ann`s phone 0671234567 was deleted'', \<lparr>data = [(''Ann'', new_Record (Name ''Ann'') [Phone ''+380971234567''] (Birthday None))], filename = ''book.dat''\<rparr>)"
    by code_simp
  have p: "new_Phone ([''Ann'', ''0671234567''] ! 1) = Inr (Phone ''+380671234567'')"
    by code_simp
  show ?thesis by (rule delete_phone_refines[OF pd res p])
qed

text \<open>C10: when no contact holds a phone twice, \<open>change name old new\<close> is, on the
  abstract map, the replacement of the old phone, which the contact held, by the new
  one.\<close>

theorem change_refines:
  assumes pd: "phones_distinct (data b)" and res: "change_raw b args = Inr (v, b')"
    and p: "new_Phone (args ! 1) = Inr p" and q: "new_Phone (args ! 2) = Inr q"
  shows "\<exists>ps bd. contacts_abs b (args ! 0) = Some (ps, bd) \<and> p \<in> ps
           \<and> contacts_abs b' = (contacts_abs b)(args ! 0 \<mapsto> (insert q (ps - {p}), bd))"
  using res p q
  using pd by (auto simp: change_raw_def py_simps change_p_Inr contact_of_def
      split: sum.split_asm dest!: lookup_distinct_abs[OF pd])

theorem change_refines_witness:
  "\<exists>ps bd. contacts_abs \<lparr>data = [(''Ann'', new_Record (Name ''Ann'') [Phone ''+380671234567''] (Birthday None))], filename = ''book.dat''\<rparr> ([''Ann'', ''0671234567'', ''0971234567''] ! 0) = Some (ps, bd) \<and> Phone ''+380671234567'' \<in> ps
           \<and> contacts_abs \<lparr>data = [(''Ann'', new_Record (Name ''Ann'') [Phone ''+380971234567''] (Birthday None))], filename = ''book.dat''\<rparr> = (contacts_abs \<lparr>data = [(''Ann'', new_Record (Name ''Ann'') [Phone ''+380671234567''] (Birthday None))], filename = ''book.dat''\<rparr>)([''Ann'', ''0671234567'', ''0971234567''] ! 0 \<mapsto> (insert (Phone ''+380971234567'') (ps - {Phone ''+380671234567''}), bd))"
proof -
  have pd: "phones_distinct (data \<lparr>data = [(''Ann'', new_Record (Name ''Ann'') [Phone ''+380671234567''] (Birthday None))], filename = ''book.dat''\<rparr>)"
    by code_simp
  have res: "change_raw \<lparr>data = [(''Ann'', new_Record (Name ''Ann'') [Phone ''+380671234567''] (Birthday None))], filename = ''book.dat''\<rparr> [''Ann'', ''0671234567'', ''0971234567''] = Inr (PyStr ''Ann`s number changed from +380671234567 to 0971234567'', \<lparr>data = [(''Ann'', new_Record (Name ''Ann'') [Phone ''+380971234567''] (Birthday None))], filename = ''book.dat''\<rparr>)"
    by code_simp
  have p: "new_Phone ([''Ann'', ''0671234567'', ''0971234567''] ! 1) = Inr (Phone ''+380671234567'')"
    by code_simp
  have q: "new_Phone ([''Ann'', ''0671234567'', ''0971234567''] ! 2) = Inr (Phone ''+380971234567'')"
    by code_simp
  show ?thesis by (rule change_refines[OF pd res p q])
qed

text \<open>C11: \<open>birthday name date\<close> is, on the abstract map, the replacement of the
  birthday of the name's contact, which exists, by the date the \<open>Birthday\<close> setter
  read.\<close>

theorem add_data_refines:
  assumes res: "add_data_raw b args = Inr (v, b')"
  shows "\<exists>ps bd0 bd. contacts_abs b (args ! 0) = Some (ps, bd0) \<and> new_Birthday (Some (args ! 1)) = Inr bd
           \<and> contacts_abs b' = (contacts_abs b)(args ! 0 \<mapsto> (ps, bd))"
  using res
  by (auto simp: add_data_raw_def py_simps abs_facts split: sum.split_asm)


theorem add_data_refines_witness:
  "\<exists>ps bd0 bd. contacts_abs \<lparr>data = [(''Ann'', new_Record (Name ''Ann'') [Phone ''+380671234567''] (Birthday None))], filename = ''book.dat''\<rparr> ([''Ann'', ''1990-01-05''] ! 0) = Some (ps, bd0) \<and> new_Birthday (Some ([''Ann'', ''1990-01-05''] ! 1)) = Inr bd
           \<and> contacts_abs \<lparr>data = [(''Ann'', new_Record (Name ''Ann'') [Phone ''+380671234567''] (Birthday (Some \<lparr>year = 1990, month = 1, day = 5\<rparr>)))], filename = ''book.dat''\<rparr> = (contacts_abs \<lparr>data = [(''Ann'', new_Record (Name ''Ann'') [Phone ''+380671234567''] (Birthday None))], filename = ''book.dat''\<rparr>)([''Ann'', ''1990-01-05''] ! 0 \<mapsto> (ps, bd))"
proof -
  have res: "add_data_raw \<lparr>data = [(''Ann'', new_Record (Name ''Ann'') [Phone ''+380671234567''] (Birthday None))], filename = ''book.dat''\<rparr> [''Ann'', ''1990-01-05''] = Inr (PyStr ''Birthday date 05 Jan 1990 of Ann was added or changed'', \<lparr>data = [(''Ann'', new_Record (Name ''Ann'') [Phone ''+380671234567''] (Birthday (Some \<lparr>year = 1990, month = 1, day = 5\<rparr>)))], filename = ''book.dat''\<rparr>)"
    by code_simp
  show ?thesis by (rule add_data_refines[OF res])
qed
section \<open>Order of the keys\<close>

text \<open>C13: no command reorders the dictionary: after any command the keys are the keys
  before, in the same order, or, after an \<open>add\<close> of a new name, those keys followed
  by the new name. Listing and search, which follow this order, therefore show the
  contacts in the order they were first added.\<close>

theorem call_command_key_order:
  assumes "call_command t c b fs args = Inr (v, b', fs', pr)"
  shows "map fst (data b') = map fst (data b)
         \<or> c = CmdAdd \<and> map fst (data b') = map fst (data b) @ [args ! 0]"
  using assms
  by (cases c) (auto simp: call_command_def lift_result_def goodbye_def split: sum.split_asm
      dest: wrapped_keys read_only_handlers)

theorem call_command_key_order_witness:
  "map fst (data \<lparr>data = [(''Ann'', new_Record (Name ''Ann'') [Phone ''+380671234567''] (Birthday None)), (''Bob'', new_Record (Name ''Bob'') [Phone ''+380971234567''] (Birthday None))], filename = ''book.dat''\<rparr>) = map fst (data \<lparr>data = [(''Ann'', new_Record (Name ''Ann'') [Phone ''+380671234567''] (Birthday None))], filename = ''book.dat''\<rparr>)
   \<or> CmdAdd = CmdAdd \<and> map fst (data \<lparr>data = [(''Ann'', new_Record (Name ''Ann'') [Phone ''+380671234567''] (Birthday None)), (''Bob'', new_Record (Name ''Bob'') [Phone ''+380971234567''] (Birthday None))], filename = ''book.dat''\<rparr>) = map fst (data \<lparr>data = [(''Ann'', new_Record (Name ''Ann'') [Phone ''+380671234567''] (Birthday None))], filename = ''book.dat''\<rparr>) @ [[''Bob'', ''0971234567''] ! 0]"
proof -
  have r: "call_command \<lparr>year = 2024, month = 5, day = 1\<rparr> CmdAdd \<lparr>data = [(''Ann'', new_Record (Name ''Ann'') [Phone ''+380671234567''] (Birthday None))], filename = ''book.dat''\<rparr> Map.empty [''Bob'', ''0971234567'']
    = Inr (PyStr ''Add user Bob with phone number +380971234567'', \<lparr>data = [(''Ann'', new_Record (Name ''Ann'') [Phone ''+380671234567''] (Birthday None)), (''Bob'', new_Record (Name ''Bob'') [Phone ''+380971234567''] (Birthday None))], filename = ''book.dat''\<rparr>, Map.empty, [])"
  proof -
    have "add \<lparr>data = [(''Ann'', new_Record (Name ''Ann'') [Phone ''+380671234567''] (Birthday None))], filename = ''book.dat''\<rparr> [''Bob'', ''0971234567''] = Inr (PyStr ''Add user Bob with phone number +380971234567'', \<lparr>data = [(''Ann'', new_Record (Name ''Ann'') [Phone ''+380671234567''] (Birthday None)), (''Bob'', new_Record (Name ''Bob'') [Phone ''+380971234567''] (Birthday None))], filename = ''book.dat''\<rparr>)"
      by code_simp
    then show ?thesis by (simp add: call_command_def lift_result_def)
  qed
  show ?thesis by (rule call_command_key_order[OF r])
qed

section \<open>Error paths and sequences of commands\<close>

text \<open>C23: \<open>add_data\<close> reads the date before it looks the name up: a date that
  neither format accepts is reported as \<open>Wrong date type!\<close> whether or not the name
  is in the book, and the book is unchanged.\<close>

theorem add_data_date_checked_first:
  assumes "new_Birthday (Some s) = Inl e"
  shows "add_data b [n, s] = Inr (PyStr ''Wrong date type!'', b)"
proof -
  have "e = DateError" using new_Birthday_Inl[OF assms] by simp
  then show ?thesis using assms by (simp add: add_data_def add_data_raw_def InputError_def py_nth_def)
qed

theorem add_data_date_checked_first_witness:
  "add_data \<lparr>data = [], filename = ''book.dat''\<rparr> [''Nobody'', ''31.02.2000'']
     = Inr (PyStr ''Wrong date type!'', \<lparr>data = [], filename = ''book.dat''\<rparr>)"
proof -
  have e: "new_Birthday (Some ''31.02.2000'') = Inl DateError" by code_simp
  show ?thesis by (rule add_data_date_checked_first[OF e])
qed

text \<open>C21: adding a phone a contact does not hold and then deleting it gives back the
  book as it was, in the same order.\<close>

theorem add_then_delete_restores:
  assumes r: "map_of (data b) n = Some r" and p: "new_Phone s = Inr p" and notin: "p \<notin> set (phone_l r)"
  shows "\<exists>v b1 v'. add b [n, s] = Inr (v, b1) \<and> delete_phone b1 [n, s] = Inr (v', b)"
proof -
  let ?b1 = "b\<lparr>data := AList.update n (add_p r p) (data b)\<rparr>"
  have add: "add_raw b [n, s] = Inr (PyStr (''Add phone '' @ phone_value p @ '' to user '' @ n), ?b1)"
    using r p notin by (simp add: add_raw_def new_Name_def py_nth_def)
  have del: "del_p (add_p r p) p = Inr r"
    using notin by (simp add: del_p_Inr add_p_def remove1_append)
  have "delete_phone_raw ?b1 [n, s] = Inr (PyStr (n @ ''`s phone '' @ s @ '' was deleted''), b)"
    using p del r by (simp add: delete_phone_raw_def py_nth_def py_getitem_def update_conv' update_triv)
  with add show ?thesis by (simp add: add_def delete_phone_def InputError_def)
qed

theorem add_then_delete_restores_witness:
  "\<exists>v b1 v'. add \<lparr>data = [(''Ann'', new_Record (Name ''Ann'') [Phone ''+380671234567''] (Birthday None))], filename = ''book.dat''\<rparr> [''Ann'', ''0971234567''] = Inr (v, b1)
     \<and> delete_phone b1 [''Ann'', ''0971234567''] = Inr (v', \<lparr>data = [(''Ann'', new_Record (Name ''Ann'') [Phone ''+380671234567''] (Birthday None))], filename = ''book.dat''\<rparr>)"
proof -
  have r: "map_of (data \<lparr>data = [(''Ann'', new_Record (Name ''Ann'') [Phone ''+380671234567''] (Birthday None))], filename = ''book.dat''\<rparr>) ''Ann''
    = Some (new_Record (Name ''Ann'') [Phone ''+380671234567''] (Birthday None))" by simp
  have p: "new_Phone ''0971234567'' = Inr (Phone ''+380971234567'')" by code_simp
  have n: "Phone ''+380971234567'' \<notin> set (phone_l (new_Record (Name ''Ann'') [Phone ''+380671234567''] (Birthday None)))"
    by (simp add: new_Record_def)
  show ?thesis by (rule add_then_delete_restores[OF r p n])
qed

end
