(* ===== verification/Runs.thy ===== *)
theory Runs
  imports Session
begin

text \<open>
  Runs of \<open>main\<close> on an input script: \<open>run_lines\<close> (in \<open>Session\<close>) feeds the lines
  one by one to \<open>main_step\<close> while the program is running. This theory shows that a
  script containing \<open>exit\<close> ends the program.
\<close>

section \<open>The loop and the step relation\<close>

lemma run_lines_stopped: "status s \<noteq> Running \<Longrightarrow> run_lines ls s = s"
  by (cases ls) auto

lemma find_command_exit: "find_command COMMANDS ''exit'' = Some (''exit'', CmdGoodbye)"
  by code_simp

lemma main_step_exit: "status (main_step t ''exit'' s) = Exited"
  by (simp add: main_step_def find_command_exit call_command_def goodbye_def)

text \<open>C12: a script that contains the line \<open>exit\<close> ends the program: run from a
  running session, the loop is no longer running after it (it has exited at that
  line, or earlier by another exit or a crash).\<close>

theorem exit_line_stops:
  "status s = Running \<Longrightarrow> (t, ''exit'') \<in> set ls \<Longrightarrow> status (run_lines ls s) \<noteq> Running"
proof (induction ls arbitrary: s)
  case Nil
  then show ?case by simp
next
  case (Cons tl ls)
  obtain t' l where tl: "tl = (t', l)" by (cases tl)
  show ?case
  proof (cases "tl = (t, ''exit'')")
    case True
    then show ?thesis using Cons.prems by (simp add: main_step_exit run_lines_stopped)
  next
    case False
    show ?thesis
    proof (cases "status (main_step t' l s) = Running")
      case True
      have "(t, ''exit'') \<in> set ls" using Cons.prems(2) False by auto
      with True Cons.IH Cons.prems(1) tl show ?thesis by simp
    next
      case stopped: False
      then show ?thesis using Cons.prems tl by (simp add: run_lines_stopped)
    qed
  qed
qed

theorem exit_line_stops_witness:
  "status (run_lines [(\<lparr>year = 2024, month = 5, day = 1\<rparr>, ''hello''), (\<lparr>year = 2024, month = 5, day = 1\<rparr>, ''exit'')]
     (start_session Map.empty)) \<noteq> Running"
proof -
  have "status (start_session Map.empty) = Running"
    by (simp add: start_session_def new_AddressBook_def)
  then show ?thesis by (rule exit_line_stops) simp
qed

end
