(* ===== verification/Spec2Isabelle.thy ===== *)
theory Spec2Isabelle
  imports Store_Spec Runs
begin

text \<open>
  \<^bold>\<open>A verification development of the contact book in \<open>src/main.py\<close>.\<close>

  \<^bold>\<open>The program.\<close> One Python file. The field classes \<open>Name\<close>, \<open>Phone\<close> and
  \<open>Birthday\<close> (subclasses of \<open>Field\<close>) validate their value in a property
  setter; \<open>Record\<close> holds a name, a list of phones and a birthday and counts the
  days to the next birthday; \<open>AddressBook\<close> (a \<open>UserDict\<close> from names to
  records) loads and saves itself with \<open>pickle\<close> and pages its records through
  the generator \<open>iterator\<close>, two to a page (\<open>N = 2\<close>). The command handlers
  (\<open>add\<close>, \<open>change\<close>, \<open>phone\<close>, \<open>delete_phone\<close>, \<open>add_data\<close>,
  \<open>days_to_birthday\<close>, wrapped by the decorator class \<open>InputError\<close>, which turns
  exceptions into messages; \<open>search\<close>, \<open>show_all\<close>, \<open>greet\<close>, \<open>goodbye\<close>
  unwrapped) read and change the book; \<open>main\<close> reads a line, dispatches it through
  the dictionary \<open>COMMANDS\<close> and prints the reply.

  \<^bold>\<open>The library.\<close> Each theory models one part, leaves first; the claims
  (\<open>C1\<close> ...) are the theorems after a \<open>text\<close> block naming them.
  \<^item> \<open>Prelude\<close>: the Python builtins the program calls, on strings of Latin-1
    code points (\<open>str.isdigit\<close>, \<open>str.lower\<close>, \<open>str.split\<close>, the substring
    operator \<open>in\<close>, slices, \<open>removeprefix\<close>, \<open>join\<close>, \<open>str(int)\<close>), the
    exceptions as the datatype \<open>exc\<close> (a fallible operation returns \<open>exc + 'a\<close>),
    \<open>list.remove\<close>, \<open>args[i]\<close>, \<open>d[k]\<close>, and a \<open>dict\<close> as an association
    list whose update keeps insertion order (\<open>AList.update\<close>).
  \<^item> \<open>Dates\<close>: \<open>datetime.date\<close> as a record with the range checks of its
    constructor, the proleptic Gregorian ordinal, the order on dates, \<open>strftime\<close>
    and \<open>strptime\<close>. \<open>strptime\<close> is modelled the way CPython implements it: the
    format becomes a regular expression, the first match (the head of a list of
    successes, in the order a backtracking matcher tries the alternatives) must consume
    the whole string, and the date is then range-checked. The ordinal is strictly monotone in
    the tuple order on real dates, the fact the birthday count rests on.
  \<^item> \<open>Field_Values\<close>: \<open>Name\<close>, \<open>Phone\<close>, \<open>Birthday\<close> (lines 22--77) as
    datatypes holding their value; the setters as \<open>new_Name\<close>, \<open>new_Phone\<close>,
    \<open>new_Birthday\<close>, returning the object or the exception. Proved: the exact set of
    strings \<open>Phone\<close> accepts and what it stores, that every stored value is canonical,
    that the setter is idempotent; that both birthday formats read back every real
    date, that a birthday holds no date exactly when it was given \<open>None\<close> and
    otherwise a real date, and that the setter fails only with \<open>DateError\<close>. Two
    evaluated examples show superscript digits passing \<open>str.isdigit\<close> and the
    leniency of \<open>strptime\<close>.
  \<^item> \<open>Contact_Record\<close>: \<open>Record\<close> (lines 80--107): \<open>add_p\<close>, \<open>del_p\<close>,
    \<open>change_p\<close>, \<open>days_to_hp\<close> with \<open>date.today()\<close> as an argument, and
    \<open>__str__\<close>. Proved: \<open>days_to_hp\<close> counts the days to the next occurrence of
    the birthday (between 0 and 365), returns a count exactly when both
    \<open>date(...)\<close> calls succeed (\<open>days_to_hp_defined_iff\<close>: a 29 February
    birthday only in a leap year before it has passed, any other birthday except in
    the year \<open>9999\<close> once it has passed), and raises \<open>ValueError\<close> for 29 February
    in common years; \<open>del_p\<close> and
    \<open>change_p\<close> remove one occurrence or raise \<open>ValueError\<close>, changing nothing.
  \<^item> \<open>AddressBook\<close>: the class (lines 110--137) as a record of the insertion-ordered
    dictionary and the file name; the file system as a map from paths to contents, a
    pickled file holding the dictionary as it was dumped; the generator \<open>iterator\<close>
    as the list of the pages it yields. The store invariant \<open>book_inv\<close> (distinct
    keys, each its record's name, canonical phones, real birthdays). Proved: the
    generator refines the specification \<open>paginate\<close> (chunks of \<open>N\<close>, a last chunk
    of the remainder, each under its header), the page count, and the page sizes.
  \<^item> \<open>Handlers\<close>: the handlers (lines 144--242), each returning its value and the
    book or the exception it raises, and \<open>InputError\<close> as a function from a handler
    to a handler. Proved: each keeps \<open>book_inv\<close>; \<open>add\<close> stores the phone where a
    lookup finds it and never duplicates a phone, while \<open>change\<close> to a phone
    the record already holds always does (\<open>change_creates_duplicate\<close>); and
    \<open>search\<close> finds a contact by the digits of any
    number it holds (\<open>search_finds_phone\<close>), but not by a national number typed
    after a \<open>+\<close>, which \<open>Phone\<close> accepts.
  \<^item> \<open>Session\<close>: \<open>goodbye\<close>, \<open>COMMANDS\<close> and \<open>main\<close> (lines 245--269). A
    session is the book, the file system, the printed lines and a status (running,
    exited, crashed with an exception); \<open>main_step\<close> is one iteration of the loop on
    an input line, \<open>session_step\<close> the step relation and \<open>reachable\<close> the sessions
    of a run. Proved by rule induction: every reachable session keeps the invariant
    (\<open>reachable_session_inv\<close>), the file is written only on exit
    (\<open>file_written_only_on_exit\<close>), and what exit saves the next run loads
    (\<open>exit_then_restart\<close>); and, as findings, that dispatch runs the first key
    of \<open>COMMANDS\<close> occurring anywhere in the line (\<open>dispatch_first_key_in_line\<close>,
    so \<open>birthday Maddie ...\<close> runs \<open>add\<close>), and that with no argument words
    \<open>search\<close> is the only command that ends the program with an exception
    (\<open>search_without_argument_crashes\<close>).
  \<^item> \<open>Store_Spec\<close>: the abstract view of the store the spec describes, a map from a
    name to the contact's set of phones and birthday (\<open>contacts_abs\<close>). Proved: the
    handlers that change the book refine map updates at the key of their first
    argument (\<open>add_refines\<close>, \<open>delete_phone_refines\<close>, \<open>change_refines\<close>,
    \<open>add_data_refines\<close>; the last two kinds assume no contact holds a phone twice,
    which \<open>add\<close> keeps and \<open>change\<close> can break); no command reorders the keys, a
    new contact goes last; \<open>add_data\<close>
    checks the date before the name; adding a phone and deleting it restores the book.
  \<^item> \<open>Runs\<close>: the loop over an input script (\<open>run_lines\<close>, defined in
    \<open>Session\<close>). Proved: a script containing \<open>exit\<close> ends the program
    (\<open>exit_line_stops\<close>).

  \<^bold>\<open>Loops and bounds.\<close> Every loop of the program runs over a finite list (the
  records, the characters of a string, the input lines), so each is structural
  recursion and needs no fuel; \<open>chunks\<close> of the specification terminates by the
  length of its list. \<open>while True\<close> in \<open>main\<close> is the step relation, so a run of any
  length is a finite sequence of steps; \<open>run_lines\<close> feeds a finite script to it,
  one iteration per line while the program runs. Python integers are unbounded and modelled as
  \<open>int\<close>/\<open>nat\<close>; the only bound the program has is \<open>date\<close>'s year range
  \<open>1..9999\<close>, checked in \<open>py_date\<close>.

  \<^bold>\<open>Scope.\<close> Strings are modelled on the Latin-1 range of code points, where
  the builtins are written out exactly; \<open>date.today()\<close> is an input of the
  operations that read it; \<open>print\<close> and \<open>input\<close> are the list of printed lines and
  the input lines of a run. \<open>strftime('%Y')\<close> is modelled as four digits,
  zero-padded, as CPython renders it since 3.13; older CPython on glibc prints a
  year below 1000 without padding, so for such years the birthday \<open>search\<close>
  matches and the printed dates follow the newer rendering.

  \<^bold>\<open>Not modelled.\<close> The bytes of \<open>pickle\<close>: a file holds the dictionary it was
  dumped with, or content \<open>pickle.load\<close> rejects; \<open>pickle\<close> is a library the
  program only calls, and its format decides nothing the program does. The
  \<open>>>> \<close> prompt, which only goes to the terminal; the \<open>EOFError\<close> that
  \<open>input()\<close> raises at the end of the input, which only ends the program; \<open>KeyboardInterrupt\<close> and
  other signals; characters outside Latin-1, whose \<open>str.lower\<close> and
  \<open>str.isdigit\<close> tables are not written out. The lines left unmapped in
  \<open>src/main.py\<close> are its imports and the \<open>if __name__ == '__main__'\<close> guard.
\<close>

end
